theory Spec2Isabelle
  imports Main "HOL-Library.AList"
begin

section \<open>Data model\<close>

text \<open>
  The usage records of \<^verbatim>\<open>types/parser.dto.ts\<close>. A JavaScript object used as a
  dictionary (\<^verbatim>\<open>Record<string, ...>\<close>) is an association list in insertion order, read
  with \<open>map_of\<close>: \<^verbatim>\<open>Object.keys\<close> is \<open>map fst\<close>, \<^verbatim>\<open>Object.values\<close> is \<open>map snd\<close>, a new
  key is appended at the end. Lookups are lookups of own properties, and names are not
  array indices (JavaScript enumerates such keys first).
\<close>

datatype SequelizeWriteOperationType = INSERT | UPDATE | DELETE

record SequelizeParserModelOperations =
  table :: string
  isSelect :: bool
  isInsert :: bool
  isUpdate :: bool
  isDelete :: bool

type_synonym SequelizeFoundModelsRecord = "(string \<times> SequelizeParserModelOperations) list"

record SequelizeParserOptions =
  tsConfigName :: "string option"
  onlyFromSpecificModuleImport :: "string option"

text \<open>
  What the parser reads of a Sequelize model class: its \<^verbatim>\<open>name\<close>, the result of
  \<^verbatim>\<open>getTableName()\<close> (a string, or an object with schema, table name and delimiter) and
  its \<^verbatim>\<open>associations\<close>. Of an association it reads whether it is a \<^verbatim>\<open>BelongsToMany\<close>,
  its \<^verbatim>\<open>target\<close> model class and \<^verbatim>\<open>options.through\<close>, which is a string, a model class
  or an options object whose \<^verbatim>\<open>model\<close> field is again a string or a model class.
\<close>

datatype TableName =
    TableNameString string
  | TableNameObject string string string

record ModelClass =
  name :: string
  getTableName :: TableName

datatype ThroughModelField = FieldString string | FieldModel ModelClass | FieldOther

datatype Through =
    ThroughString string
  | ThroughModel ModelClass
  | ThroughOptions "ThroughModelField option"

datatype AssociationType = BelongsTo | HasOne | HasMany | BelongsToMany

record Association =
  associationType :: AssociationType
  target :: ModelClass
  through :: "Through option"

record ModelStatic = ModelClass +
  associations :: "(string \<times> Association) list"

type_synonym SequelizeParserAvailableModelsRecord = "(string \<times> ModelStatic) list"

text \<open>
  What the parser reads of the syntax tree and of the type checker. A node is seen through
  its kind, its text and its position; the callee of a call through its token-level
  children (\<^verbatim>\<open>getChildren\<close>, punctuation tokens included) and its first token; an argument
  through being a string literal or not. The type checker is a function from a node to its
  static type, of which the symbol's name and declarations (with their heritage clauses)
  are read.
\<close>

datatype SyntaxKind =
    Identifier | StringLiteral | ThisKeyword
  | DotToken | QuestionDotToken | OpenBracketToken | CloseBracketToken
  | OtherSyntaxKind

record TsNode =
  kind :: SyntaxKind
  getText :: string
  pos :: nat

record Expression =
  getSourceFile :: bool
  getFirstToken :: "TsNode option"
  getChildren :: "TsNode list"

datatype ArgumentExpression = StringLiteralExpression string | OtherExpression

record CallExpression =
  expression :: Expression
  arguments :: "ArgumentExpression list"

datatype HeritageExpression =
    HeritageCall "string list"
  | HeritageIdentifier string
  | HeritageOther

record ExpressionWithTypeArguments =
  typeArguments :: "string list option"
  heritageExpression :: HeritageExpression

type_synonym HeritageClause = "ExpressionWithTypeArguments list"

datatype Declaration =
    InterfaceDeclaration "HeritageClause list option"
  | ClassDeclaration "HeritageClause list option"
  | MappedTypeNode
  | OtherDeclaration

record TsSymbol =
  getName :: string
  getDeclarations :: "Declaration list option"

record TsType =
  getSymbol :: "TsSymbol option"

type_synonym TypeChecker = "TsNode \<Rightarrow> TsType"

record ImportSpecifier =
  specifierName :: string
  propertyName :: "string option"

record ImportDeclaration =
  moduleSpecifier :: "string option"
  namedImports :: "ImportSpecifier list"

datatype Node =
    ImportDeclarationNode ImportDeclaration
  | CallExpressionNode CallExpression "Node list"
  | OtherNode "Node list"

record SourceFile =
  isDeclarationFile :: bool
  sourceNode :: Node

record Program =
  getSourceFiles :: "SourceFile list"
  getTypeChecker :: TypeChecker

datatype error = ConfigNotFound | TypeError


section \<open>helpers.ts\<close>

definition getSequelizeModelTableName :: "'a ModelClass_scheme \<Rightarrow> string" where
  "getSequelizeModelTableName model =
     (case getTableName model of
        TableNameString s \<Rightarrow> s
      | TableNameObject schema tableName delimiter \<Rightarrow> schema @ delimiter @ tableName)"

definition SequelizeDefaultWriteMethodsRecord ::
    "(string \<times> SequelizeWriteOperationType list) list" where
  "SequelizeDefaultWriteMethodsRecord =
     [(''build'', [INSERT]),
      (''bulkCreate'', [INSERT]),
      (''create'', [INSERT]),
      (''findCreateFind'', [INSERT]),
      (''findOrBuild'', [INSERT]),
      (''findOrCreate'', [INSERT]),
      (''bulkUpdate'', [UPDATE]),
      (''decrement'', [UPDATE]),
      (''increment'', [UPDATE]),
      (''restore'', [UPDATE]),
      (''save'', [UPDATE]),
      (''set'', [UPDATE]),
      (''update'', [UPDATE]),
      (''upsert'', [INSERT, UPDATE]),
      (''destroy'', [DELETE])]"

definition SequelizeTypescriptGeneratedWriteMixins :: "string list" where
  "SequelizeTypescriptGeneratedWriteMixins = [''$add'', ''$create'', ''$set'', ''$remove'']"

definition isSequelizeTypescriptGeneratedWriteMethod :: "string \<Rightarrow> bool" where
  "isSequelizeTypescriptGeneratedWriteMethod method =
     (method \<in> set SequelizeTypescriptGeneratedWriteMixins)"

definition isSequelizeModelWriteMethod :: "string \<Rightarrow> bool" where
  "isSequelizeModelWriteMethod method =
     (method \<in> set (map fst SequelizeDefaultWriteMethodsRecord)
      \<or> isSequelizeTypescriptGeneratedWriteMethod method)"

text \<open>
  The empty string is falsy: an options object whose \<^verbatim>\<open>model\<close> is the empty string
  falls through to the error branch, which returns \<^verbatim>\<open>undefined\<close>.
\<close>

fun getSequelizeModelNameFromThroughModel :: "Through \<Rightarrow> string option" where
  "getSequelizeModelNameFromThroughModel (ThroughString s) = Some s"
| "getSequelizeModelNameFromThroughModel (ThroughModel m) = Some (name m)"
| "getSequelizeModelNameFromThroughModel (ThroughOptions None) = None"
| "getSequelizeModelNameFromThroughModel (ThroughOptions (Some (FieldString s))) =
     (if s = [] then None else Some s)"
| "getSequelizeModelNameFromThroughModel (ThroughOptions (Some (FieldModel m))) = Some (name m)"
| "getSequelizeModelNameFromThroughModel (ThroughOptions (Some FieldOther)) = None"


section \<open>The usage record store\<close>

text \<open>
  \<^verbatim>\<open>getOrCreateModelOperations\<close> returns a reference to the record stored under the
  model's name. Records are never replaced once created, so the reference is the key, and
  an assignment through the reference is an update of the entry under that key.
\<close>

definition getOrCreateModelOperations ::
    "'a ModelClass_scheme \<Rightarrow> SequelizeFoundModelsRecord \<Rightarrow> SequelizeFoundModelsRecord" where
  "getOrCreateModelOperations model foundModels =
     (case map_of foundModels (name model) of
        None \<Rightarrow> foundModels @
          [(name model,
            \<lparr>table = getSequelizeModelTableName model, isSelect = True,
             isInsert = False, isUpdate = False, isDelete = False\<rparr>)]
      | Some modelOperations \<Rightarrow> foundModels)"

definition setInsert :: "string \<Rightarrow> SequelizeFoundModelsRecord \<Rightarrow> SequelizeFoundModelsRecord" where
  "setInsert key foundModels = AList.map_entry key (\<lambda>r. r\<lparr>isInsert := True\<rparr>) foundModels"

definition setUpdate :: "string \<Rightarrow> SequelizeFoundModelsRecord \<Rightarrow> SequelizeFoundModelsRecord" where
  "setUpdate key foundModels = AList.map_entry key (\<lambda>r. r\<lparr>isUpdate := True\<rparr>) foundModels"

definition setDelete :: "string \<Rightarrow> SequelizeFoundModelsRecord \<Rightarrow> SequelizeFoundModelsRecord" where
  "setDelete key foundModels = AList.map_entry key (\<lambda>r. r\<lparr>isDelete := True\<rparr>) foundModels"

text \<open>Reading a flag through a reference to the record under \<open>key\<close>.\<close>

definition readFlag ::
    "(SequelizeParserModelOperations \<Rightarrow> bool) \<Rightarrow> string \<Rightarrow> SequelizeFoundModelsRecord \<Rightarrow> bool" where
  "readFlag flag key foundModels =
     (case map_of foundModels key of None \<Rightarrow> False | Some r \<Rightarrow> flag r)"


section \<open>parser.ts\<close>

subsection \<open>Import declarations\<close>

text \<open>
  \<open>processImportSpecifier\<close> is the callback that \<^verbatim>\<open>processImportDeclarationNode\<close> runs on
  each named import; the values of the registry are Sequelize models, so the test
  \<^verbatim>\<open>isSequelizeModel\<close> holds for a model that is found.
\<close>

definition processImportSpecifier ::
    "SequelizeParserAvailableModelsRecord \<Rightarrow> ImportSpecifier
     \<Rightarrow> SequelizeFoundModelsRecord \<Rightarrow> SequelizeFoundModelsRecord" where
  "processImportSpecifier availableModels i foundModels =
     (case map_of availableModels
             (case propertyName i of Some p \<Rightarrow> p | None \<Rightarrow> specifierName i) of
        None \<Rightarrow> foundModels
      | Some model \<Rightarrow>
          (case map_of foundModels (name model) of
             Some r \<Rightarrow> foundModels
           | None \<Rightarrow> foundModels @
               [(name model,
                 \<lparr>table = getSequelizeModelTableName model, isSelect = True,
                  isInsert = False, isUpdate = False, isDelete = False\<rparr>)]))"

definition processImportDeclarationNode ::
    "SequelizeParserOptions \<Rightarrow> SequelizeParserAvailableModelsRecord \<Rightarrow> ImportDeclaration
     \<Rightarrow> SequelizeFoundModelsRecord \<Rightarrow> SequelizeFoundModelsRecord" where
  "processImportDeclarationNode options availableModels node foundModels =
     (if (case (onlyFromSpecificModuleImport options, moduleSpecifier node) of
            (Some only, Some from) \<Rightarrow> from \<noteq> only
          | _ \<Rightarrow> False)
      then foundModels
      else fold (processImportSpecifier availableModels) (namedImports node) foundModels)"

subsection \<open>Direct write methods\<close>

text \<open>
  \<open>applyOperation\<close> is the \<^verbatim>\<open>switch\<close> of \<^verbatim>\<open>processModelWriteMethod\<close>, run on each operation
  of the method through the reference that \<^verbatim>\<open>getOrCreateModelOperations\<close> returned.
\<close>

fun applyOperation ::
    "string \<Rightarrow> SequelizeWriteOperationType
     \<Rightarrow> SequelizeFoundModelsRecord \<Rightarrow> SequelizeFoundModelsRecord" where
  "applyOperation key INSERT foundModels = setInsert key foundModels"
| "applyOperation key UPDATE foundModels = setUpdate key foundModels"
| "applyOperation key DELETE foundModels = setDelete key foundModels"

definition processModelWriteMethod ::
    "'a ModelClass_scheme \<Rightarrow> string
     \<Rightarrow> SequelizeFoundModelsRecord \<Rightarrow> SequelizeFoundModelsRecord" where
  "processModelWriteMethod model method foundModels =
     (if isSequelizeTypescriptGeneratedWriteMethod method then foundModels
      else case map_of SequelizeDefaultWriteMethodsRecord method of
        None \<Rightarrow> foundModels
      | Some operations \<Rightarrow>
          fold (applyOperation (name model)) operations
            (getOrCreateModelOperations model foundModels))"

subsection \<open>Join entities\<close>

text \<open>
  \<^verbatim>\<open>getThroughModelOperations\<close> returns \<^verbatim>\<open>undefined\<close> or a reference to the join
  entity's record, creating the record when it is missing: the result is the reference
  (the key) and the store. \<open>findThroughModel\<close> is the body of the function up to its
  last statement: each early \<^verbatim>\<open>return undefined\<close> is a \<open>None\<close>. A \<^verbatim>\<open>through\<close> option
  that is the empty string is falsy, like a missing one.
\<close>

definition findThroughModel ::
    "SequelizeParserAvailableModelsRecord \<Rightarrow> Association \<Rightarrow> ModelStatic option" where
  "findThroughModel availableModels association =
     (if associationType association \<noteq> BelongsToMany then None
      else case through association of
        None \<Rightarrow> None
      | Some t \<Rightarrow>
          (if t = ThroughString [] then None
           else case getSequelizeModelNameFromThroughModel t of
             None \<Rightarrow> None
           | Some throughModelName \<Rightarrow>
               (if throughModelName = [] then None
                else map_of availableModels throughModelName)))"

definition getThroughModelOperations ::
    "SequelizeParserAvailableModelsRecord \<Rightarrow> Association \<Rightarrow> SequelizeFoundModelsRecord
     \<Rightarrow> string option \<times> SequelizeFoundModelsRecord" where
  "getThroughModelOperations availableModels association foundModels =
     (case findThroughModel availableModels association of
        None \<Rightarrow> (None, foundModels)
      | Some throughModel \<Rightarrow>
          (Some (name throughModel), getOrCreateModelOperations throughModel foundModels))"

subsection \<open>Association mixins\<close>

text \<open>
  \<open>mixinSwitch\<close> is the \<^verbatim>\<open>switch\<close> of \<^verbatim>\<open>processModelTypescriptMixins\<close> on the references to
  the target's record and, when there is one, to the join entity's record; the handler
  itself is the guards before it, each of which returns with the store as it is.
\<close>

definition mixinSwitch ::
    "string \<Rightarrow> string \<Rightarrow> string option
     \<Rightarrow> SequelizeFoundModelsRecord \<Rightarrow> SequelizeFoundModelsRecord" where
  "mixinSwitch method targetKey throughKey foundModels =
     (if method = ''$add'' then
        (case throughKey of
           Some t \<Rightarrow> setInsert t foundModels
         | None \<Rightarrow> setUpdate targetKey foundModels)
      else if method = ''$create'' then
        (let foundModels1 = setInsert targetKey foundModels in
         case throughKey of
           Some t \<Rightarrow> setInsert t foundModels1
         | None \<Rightarrow> foundModels1)
      else if method = ''$set'' then
        (case throughKey of
           Some t \<Rightarrow> setDelete t (setUpdate t (setInsert t foundModels))
         | None \<Rightarrow> setUpdate targetKey foundModels)
      else if method = ''$remove'' then
        (case throughKey of
           Some t \<Rightarrow> setDelete t foundModels
         | None \<Rightarrow> setUpdate targetKey foundModels)
      else foundModels)"

definition processModelTypescriptMixins ::
    "SequelizeParserAvailableModelsRecord \<Rightarrow> ModelStatic \<Rightarrow> string
     \<Rightarrow> ArgumentExpression list
     \<Rightarrow> SequelizeFoundModelsRecord \<Rightarrow> SequelizeFoundModelsRecord" where
  "processModelTypescriptMixins availableModels sourceModel method args foundModels =
     (if \<not> isSequelizeTypescriptGeneratedWriteMethod method then foundModels
      else if length args < 2 then foundModels
      else case args ! 0 of
        OtherExpression \<Rightarrow> foundModels
      | StringLiteralExpression text \<Rightarrow>
          (case map_of (associations sourceModel) text of
             None \<Rightarrow> foundModels
           | Some association \<Rightarrow>
               (case map_of availableModels (name (target association)) of
                  None \<Rightarrow> foundModels
                | Some registered \<Rightarrow>
                    (case getThroughModelOperations availableModels association
                            (getOrCreateModelOperations (target association) foundModels) of
                       (throughKey, foundModels1) \<Rightarrow>
                         mixinSwitch method (name (target association)) throughKey
                           foundModels1))))"

subsection \<open>Entity resolution\<close>

text \<open>
  \<^verbatim>\<open>Array.prototype.some\<close> with a callback that assigns the model it finds: the result
  is the first model found, scanning from the left. \<open>findModelInHeritageType\<close> is the
  callback of \<^verbatim>\<open>findModelFromNode\<close> on one type of a heritage clause (its type arguments
  first, an empty text never matching, then its expression), \<open>findModelInDeclaration\<close> the
  callback on one declaration of the type's symbol.
\<close>

fun arraySome :: "('a \<Rightarrow> 'b option) \<Rightarrow> 'a list \<Rightarrow> 'b option" where
  "arraySome f [] = None"
| "arraySome f (x # xs) = (case f x of Some y \<Rightarrow> Some y | None \<Rightarrow> arraySome f xs)"

definition findModelInHeritageType ::
    "SequelizeParserAvailableModelsRecord \<Rightarrow> ExpressionWithTypeArguments
     \<Rightarrow> ModelStatic option" where
  "findModelInHeritageType availableModels t =
     (case (case typeArguments t of
              None \<Rightarrow> None
            | Some as \<Rightarrow>
                arraySome (\<lambda>a. if a = [] then None else map_of availableModels a) as) of
        Some model \<Rightarrow> Some model
      | None \<Rightarrow>
          (case heritageExpression t of
             HeritageCall args \<Rightarrow> arraySome (map_of availableModels) args
           | HeritageIdentifier text \<Rightarrow> map_of availableModels text
           | HeritageOther \<Rightarrow> None))"

fun findModelInDeclaration ::
    "SequelizeParserAvailableModelsRecord \<Rightarrow> Declaration \<Rightarrow> ModelStatic option" where
  "findModelInDeclaration availableModels (InterfaceDeclaration heritageClauses) =
     (case heritageClauses of
        None \<Rightarrow> None
      | Some hs \<Rightarrow> arraySome (arraySome (findModelInHeritageType availableModels)) hs)"
| "findModelInDeclaration availableModels (ClassDeclaration heritageClauses) =
     (case heritageClauses of
        None \<Rightarrow> None
      | Some hs \<Rightarrow> arraySome (arraySome (findModelInHeritageType availableModels)) hs)"
| "findModelInDeclaration availableModels MappedTypeNode = None"
| "findModelInDeclaration availableModels OtherDeclaration = None"

text \<open>
  A type without a symbol makes the second lookup a lookup of the key \<^verbatim>\<open>undefined\<close>,
  which JavaScript converts to the string of that name.
\<close>

definition findModelFromNode ::
    "SequelizeParserAvailableModelsRecord \<Rightarrow> TypeChecker \<Rightarrow> TsNode \<Rightarrow> ModelStatic option" where
  "findModelFromNode availableModels checker node =
     (case map_of availableModels (getText node) of
        Some model \<Rightarrow> Some model
      | None \<Rightarrow>
          (if kind node \<noteq> Identifier then None
           else let typeOfVariable = checker node in
             case map_of availableModels
                    (case getSymbol typeOfVariable of
                       None \<Rightarrow> ''undefined''
                     | Some s \<Rightarrow> getName s) of
               Some model \<Rightarrow> Some model
             | None \<Rightarrow>
                 (case getSymbol typeOfVariable of
                    None \<Rightarrow> None
                  | Some s \<Rightarrow>
                      (case getDeclarations s of
                         None \<Rightarrow> None
                       | Some ds \<Rightarrow> arraySome (findModelInDeclaration availableModels) ds))))"

subsection \<open>Call expressions and the visitor\<close>

text \<open>
  The empty text is falsy. \<^verbatim>\<open>ts.forEachChild\<close> gives the children that the visitor
  descends into; an import declaration is not descended into.
\<close>

definition processCallExpression ::
    "SequelizeParserAvailableModelsRecord \<Rightarrow> TypeChecker \<Rightarrow> CallExpression
     \<Rightarrow> SequelizeFoundModelsRecord \<Rightarrow> SequelizeFoundModelsRecord" where
  "processCallExpression availableModels checker node foundModels =
     (if \<not> getSourceFile (expression node) \<or> getFirstToken (expression node) = None
      then foundModels
      else if length (getChildren (expression node)) < 3 then foundModels
      else let thirdNode = getChildren (expression node) ! 2;
               method = getText thirdNode in
        if method = [] \<or> kind thirdNode \<noteq> Identifier \<or> \<not> isSequelizeModelWriteMethod method
        then foundModels
        else case getFirstToken (expression node) of
          None \<Rightarrow> foundModels
        | Some firstNode \<Rightarrow>
            (case findModelFromNode availableModels checker firstNode of
               None \<Rightarrow> foundModels
             | Some model \<Rightarrow>
                 processModelTypescriptMixins availableModels model method (arguments node)
                   (processModelWriteMethod model method foundModels)))"

fun nodeVisitor ::
    "SequelizeParserOptions \<Rightarrow> SequelizeParserAvailableModelsRecord \<Rightarrow> TypeChecker \<Rightarrow> Node
     \<Rightarrow> SequelizeFoundModelsRecord \<Rightarrow> SequelizeFoundModelsRecord" where
  "nodeVisitor options availableModels checker (ImportDeclarationNode node) foundModels =
     processImportDeclarationNode options availableModels node foundModels"
| "nodeVisitor options availableModels checker (CallExpressionNode node children) foundModels =
     fold (nodeVisitor options availableModels checker) children
       (processCallExpression availableModels checker node foundModels)"
| "nodeVisitor options availableModels checker (OtherNode children) foundModels =
     fold (nodeVisitor options availableModels checker) children foundModels"

subsection \<open>The completion pass\<close>

text \<open>
  \<^verbatim>\<open>forEach\<close> with a callback that may throw: the first exception ends the loop.
\<close>

fun forEach :: "('a \<Rightarrow> 's \<Rightarrow> error + 's) \<Rightarrow> 'a list \<Rightarrow> 's \<Rightarrow> error + 's" where
  "forEach f [] s = Inr s"
| "forEach f (x # xs) s = (case f x s of Inl e \<Rightarrow> Inl e | Inr s' \<Rightarrow> forEach f xs s')"

text \<open>
  \<open>addHiddenAssociation\<close> is the body of the inner loop of
  \<^verbatim>\<open>addHiddenManyToManyModels\<close>, \<open>addHiddenModel\<close> the body of the outer loop, which runs
  over the keys the store has when the pass starts. \<open>propagateFlag\<close> is one of the three
  conditional assignments: \<^verbatim>\<open>targetModelOperations\<close> is a reference, read again at each
  of the three tests, and an assignment through an \<^verbatim>\<open>undefined\<close>
  \<^verbatim>\<open>throughModelOperations\<close> is a \<^verbatim>\<open>TypeError\<close>, as is reading \<^verbatim>\<open>associations\<close> of a
  model that the registry does not have.
\<close>

definition propagateFlag ::
    "(SequelizeParserModelOperations \<Rightarrow> bool)
     \<Rightarrow> (string \<Rightarrow> SequelizeFoundModelsRecord \<Rightarrow> SequelizeFoundModelsRecord)
     \<Rightarrow> string \<Rightarrow> string option
     \<Rightarrow> SequelizeFoundModelsRecord \<Rightarrow> error + SequelizeFoundModelsRecord" where
  "propagateFlag flag setFlag targetKey throughKey foundModels =
     (if readFlag flag targetKey foundModels
      then (case throughKey of
              None \<Rightarrow> Inl TypeError
            | Some t \<Rightarrow> Inr (setFlag t foundModels))
      else Inr foundModels)"

definition addHiddenAssociation ::
    "SequelizeParserAvailableModelsRecord \<Rightarrow> Association
     \<Rightarrow> SequelizeFoundModelsRecord \<Rightarrow> error + SequelizeFoundModelsRecord" where
  "addHiddenAssociation availableModels association foundModels =
     (if associationType association \<noteq> BelongsToMany then Inr foundModels
      else case map_of foundModels (name (target association)) of
        None \<Rightarrow> Inr foundModels
      | Some targetModelOperations \<Rightarrow>
          (case getThroughModelOperations availableModels association foundModels of
             (throughKey, foundModels1) \<Rightarrow>
               (case propagateFlag isInsert setInsert (name (target association)) throughKey
                       foundModels1 of
                  Inl e \<Rightarrow> Inl e
                | Inr foundModels2 \<Rightarrow>
                    (case propagateFlag isUpdate setUpdate (name (target association))
                            throughKey foundModels2 of
                       Inl e \<Rightarrow> Inl e
                     | Inr foundModels3 \<Rightarrow>
                         propagateFlag isDelete setDelete (name (target association))
                           throughKey foundModels3))))"

definition addHiddenModel ::
    "SequelizeParserAvailableModelsRecord \<Rightarrow> string
     \<Rightarrow> SequelizeFoundModelsRecord \<Rightarrow> error + SequelizeFoundModelsRecord" where
  "addHiddenModel availableModels modelName foundModels =
     (case map_of availableModels modelName of
        None \<Rightarrow> Inl TypeError
      | Some model \<Rightarrow>
          forEach (addHiddenAssociation availableModels) (map snd (associations model))
            foundModels)"

definition addHiddenManyToManyModels ::
    "SequelizeParserAvailableModelsRecord
     \<Rightarrow> SequelizeFoundModelsRecord \<Rightarrow> error + SequelizeFoundModelsRecord" where
  "addHiddenManyToManyModels availableModels foundModels =
     forEach (addHiddenModel availableModels) (map fst foundModels) foundModels"

subsection \<open>The entry point\<close>

text \<open>
  \<^verbatim>\<open>ts.findConfigFile\<close> and \<^verbatim>\<open>ts.createProgram\<close> are the TypeScript library's: the
  program they produce, or \<open>None\<close> when no configuration file is found, is an input.
  \<open>visitSourceFile\<close> is the callback of \<^verbatim>\<open>visitAllSourceFiles\<close> on one source file; the
  store of a new parser is empty.
\<close>

definition loadProjectConfig :: "Program option \<Rightarrow> error + Program" where
  "loadProjectConfig configured =
     (case configured of None \<Rightarrow> Inl ConfigNotFound | Some program \<Rightarrow> Inr program)"

definition visitSourceFile ::
    "SequelizeParserOptions \<Rightarrow> SequelizeParserAvailableModelsRecord \<Rightarrow> TypeChecker
     \<Rightarrow> SourceFile \<Rightarrow> SequelizeFoundModelsRecord \<Rightarrow> SequelizeFoundModelsRecord" where
  "visitSourceFile options availableModels checker sourceFile foundModels =
     (if isDeclarationFile sourceFile then foundModels
      else nodeVisitor options availableModels checker (sourceNode sourceFile) foundModels)"

definition visitAllSourceFiles ::
    "SequelizeParserOptions \<Rightarrow> SequelizeParserAvailableModelsRecord \<Rightarrow> Program
     \<Rightarrow> error + SequelizeFoundModelsRecord" where
  "visitAllSourceFiles options availableModels program =
     addHiddenManyToManyModels availableModels
       (fold (visitSourceFile options availableModels (getTypeChecker program))
          (getSourceFiles program) [])"

definition getModelsFromSourceFiles ::
    "Program option \<Rightarrow> SequelizeParserAvailableModelsRecord \<Rightarrow> SequelizeParserOptions
     \<Rightarrow> error + SequelizeFoundModelsRecord" where
  "getModelsFromSourceFiles configured availableModels options =
     (case loadProjectConfig configured of
        Inl e \<Rightarrow> Inl e
      | Inr program \<Rightarrow> visitAllSourceFiles options availableModels program)"


section \<open>Notions used to state the properties\<close>

text \<open>The record that \<^verbatim>\<open>getOrCreateModelOperations\<close> creates for a model.\<close>

definition freshRecord :: "'a ModelClass_scheme \<Rightarrow> SequelizeParserModelOperations" where
  "freshRecord model =
     \<lparr>table = getSequelizeModelTableName model, isSelect = True,
      isInsert = False, isUpdate = False, isDelete = False\<rparr>"

text \<open>A record with the flags of a set of operations switched on.\<close>

definition withOperations ::
    "SequelizeWriteOperationType set \<Rightarrow> SequelizeParserModelOperations
     \<Rightarrow> SequelizeParserModelOperations" where
  "withOperations ops r =
     r\<lparr>isInsert := isInsert r \<or> INSERT \<in> ops,
       isUpdate := isUpdate r \<or> UPDATE \<in> ops,
       isDelete := isDelete r \<or> DELETE \<in> ops\<rparr>"

text \<open>
  The classifier as the specification words it: the operations each direct method name
  implies, and the fifteen names of the direct vocabulary.
\<close>

definition classifierTable :: "string \<Rightarrow> SequelizeWriteOperationType set" where
  "classifierTable method =
     (if method \<in> {''create'', ''bulkCreate'', ''findOrCreate'', ''findOrBuild'',
                    ''findCreateFind'', ''build''} then {INSERT}
      else if method \<in> {''update'', ''save'', ''set'', ''increment'', ''decrement'',
                         ''restore'', ''bulkUpdate''} then {UPDATE}
      else if method = ''destroy'' then {DELETE}
      else if method = ''upsert'' then {INSERT, UPDATE}
      else {})"

definition directVocabulary :: "string list" where
  "directVocabulary =
     [''create'', ''bulkCreate'', ''findOrCreate'', ''findOrBuild'', ''findCreateFind'',
      ''build'', ''update'', ''save'', ''set'', ''increment'', ''decrement'', ''restore'',
      ''bulkUpdate'', ''destroy'', ''upsert'']"

text \<open>
  A call that passes the structural test of \<^verbatim>\<open>processCallExpression\<close> with first token
  \<open>firstNode\<close> and method name \<open>method\<close>.
\<close>

definition classifiedCall :: "CallExpression \<Rightarrow> TsNode \<Rightarrow> string \<Rightarrow> bool" where
  "classifiedCall node firstNode method =
     (getSourceFile (expression node)
      \<and> getFirstToken (expression node) = Some firstNode
      \<and> 3 \<le> length (getChildren (expression node))
      \<and> kind (getChildren (expression node) ! 2) = Identifier
      \<and> getText (getChildren (expression node) ! 2) = method)"

text \<open>
  The effect table of the association mixins as the specification gives it: for a verb and
  for whether a join entity is resolved, the operations switched on for the target entity
  and for the join entity.
\<close>

definition effectTable ::
    "string \<Rightarrow> bool \<Rightarrow> SequelizeWriteOperationType set \<times> SequelizeWriteOperationType set" where
  "effectTable verb throughPresent =
     (if verb = ''$add'' then (if throughPresent then ({}, {INSERT}) else ({UPDATE}, {}))
      else if verb = ''$create'' then
        (if throughPresent then ({INSERT}, {INSERT}) else ({INSERT}, {}))
      else if verb = ''$set'' then
        (if throughPresent then ({}, {INSERT, UPDATE, DELETE}) else ({UPDATE}, {}))
      else if verb = ''$remove'' then
        (if throughPresent then ({}, {DELETE}) else ({UPDATE}, {}))
      else ({}, {}))"

text \<open>Every record of the store has its select flag set.\<close>

definition selectInvariant :: "SequelizeFoundModelsRecord \<Rightarrow> bool" where
  "selectInvariant foundModels = list_all (\<lambda>(k, r). isSelect r) foundModels"

text \<open>
  The structural test that \<^verbatim>\<open>processCallExpression\<close> applies to a call, and a call
  whose callee is a member access: exactly the three children receiver, dot or
  question-dot token, and the identifier \<open>methodName\<close>, with first token \<open>firstNode\<close>.
\<close>

definition passesCallShape :: "CallExpression \<Rightarrow> bool" where
  "passesCallShape node =
     (getSourceFile (expression node)
      \<and> getFirstToken (expression node) \<noteq> None
      \<and> 3 \<le> length (getChildren (expression node))
      \<and> kind (getChildren (expression node) ! 2) = Identifier
      \<and> isSequelizeModelWriteMethod (getText (getChildren (expression node) ! 2)))"

definition memberAccessCall :: "CallExpression \<Rightarrow> TsNode \<Rightarrow> string \<Rightarrow> bool" where
  "memberAccessCall node firstNode methodName =
     (getSourceFile (expression node)
      \<and> getFirstToken (expression node) = Some firstNode
      \<and> length (getChildren (expression node)) = 3
      \<and> (kind (getChildren (expression node) ! 1) = DotToken
          \<or> kind (getChildren (expression node) ! 1) = QuestionDotToken)
      \<and> kind (getChildren (expression node) ! 2) = Identifier
      \<and> getText (getChildren (expression node) ! 2) = methodName)"

text \<open>
  A record evolves additively: the table stays, and a flag that is set stays set. A store
  evolves additively: its keys stay, in their order, with new keys after them, and every
  record evolves additively. An operation preserves the invariant of the store when the
  store evolves additively and keeps every select flag set.
\<close>

definition recordLe ::
    "SequelizeParserModelOperations \<Rightarrow> SequelizeParserModelOperations \<Rightarrow> bool" where
  "recordLe r r' =
     (table r' = table r
      \<and> (isSelect r \<longrightarrow> isSelect r')
      \<and> (isInsert r \<longrightarrow> isInsert r')
      \<and> (isUpdate r \<longrightarrow> isUpdate r')
      \<and> (isDelete r \<longrightarrow> isDelete r'))"

definition storeLe :: "SequelizeFoundModelsRecord \<Rightarrow> SequelizeFoundModelsRecord \<Rightarrow> bool" where
  "storeLe foundModels foundModels' =
     ((\<exists>new. map fst foundModels' = map fst foundModels @ new)
      \<and> (\<forall>k r. map_of foundModels k = Some r \<longrightarrow>
             (\<exists>r'. map_of foundModels' k = Some r' \<and> recordLe r r')))"

definition preserved :: "SequelizeFoundModelsRecord \<Rightarrow> SequelizeFoundModelsRecord \<Rightarrow> bool" where
  "preserved foundModels foundModels' =
     ((selectInvariant foundModels \<longrightarrow> selectInvariant foundModels')
      \<and> storeLe foundModels foundModels')"

text \<open>
  The flags of a join record after the completion pass has looked at one association: its
  own flags or the flags of the target's record.
\<close>

definition inheritFlags ::
    "SequelizeParserModelOperations \<Rightarrow> SequelizeParserModelOperations
     \<Rightarrow> SequelizeParserModelOperations" where
  "inheritFlags targetOps r =
     r\<lparr>isInsert := isInsert r \<or> isInsert targetOps,
       isUpdate := isUpdate r \<or> isUpdate targetOps,
       isDelete := isDelete r \<or> isDelete targetOps\<rparr>"

text \<open>
  The associations of all registered entities, and the names of the join entities: the
  entities that some association of the registry resolves as its through entity. A
  registry is keyed by name when every model is registered under its own name. Its join
  entities are apart when no join entity is the source or the target of a many-to-many
  association.
\<close>

definition allAssociations :: "SequelizeParserAvailableModelsRecord \<Rightarrow> Association list" where
  "allAssociations availableModels =
     concat (map (\<lambda>(k, model). map snd (associations model)) availableModels)"

definition joinNames :: "SequelizeParserAvailableModelsRecord \<Rightarrow> string list" where
  "joinNames availableModels =
     List.map_filter (\<lambda>a. map_option name (findThroughModel availableModels a))
       (allAssociations availableModels)"

definition keyedByName :: "SequelizeParserAvailableModelsRecord \<Rightarrow> bool" where
  "keyedByName availableModels = (\<forall>(k, model) \<in> set availableModels. name model = k)"

definition joinsApart :: "SequelizeParserAvailableModelsRecord \<Rightarrow> bool" where
  "joinsApart availableModels =
     (\<forall>(k, model) \<in> set availableModels. \<forall>a \<in> set (map snd (associations model)).
        associationType a = BelongsToMany \<longrightarrow>
          k \<notin> set (joinNames availableModels)
          \<and> name (target a) \<notin> set (joinNames availableModels))"

text \<open>
  An association is settled in a store when the completion pass has nothing left to do
  for it: its target has no record, or no flag to hand on, or the join entity's record
  has every flag of the target's.
\<close>

definition settled ::
    "SequelizeParserAvailableModelsRecord \<Rightarrow> Association \<Rightarrow> SequelizeFoundModelsRecord
     \<Rightarrow> bool" where
  "settled availableModels a foundModels =
     (associationType a = BelongsToMany \<longrightarrow>
        (case map_of foundModels (name (target a)) of
           None \<Rightarrow> True
         | Some t \<Rightarrow>
             (case findThroughModel availableModels a of
                None \<Rightarrow> \<not> isInsert t \<and> \<not> isUpdate t \<and> \<not> isDelete t
              | Some throughModel \<Rightarrow>
                  (case map_of foundModels (name throughModel) of
                     None \<Rightarrow> False
                   | Some r \<Rightarrow>
                       (isInsert t \<longrightarrow> isInsert r) \<and> (isUpdate t \<longrightarrow> isUpdate r)
                       \<and> (isDelete t \<longrightarrow> isDelete r)))))"


section \<open>Example inputs\<close>

text \<open>
  Callees as the TypeScript syntax tree presents them: \<^verbatim>\<open>receiver.method\<close> has the three
  children receiver, dot token, name.
\<close>

definition identifierNode :: "string \<Rightarrow> nat \<Rightarrow> TsNode" where
  "identifierNode text p = \<lparr>kind = Identifier, getText = text, pos = p\<rparr>"

definition tokenNode :: "SyntaxKind \<Rightarrow> string \<Rightarrow> nat \<Rightarrow> TsNode" where
  "tokenNode k text p = \<lparr>kind = k, getText = text, pos = p\<rparr>"

definition propertyAccess :: "string \<Rightarrow> string \<Rightarrow> Expression" where
  "propertyAccess receiver method =
     \<lparr>getSourceFile = True,
      getFirstToken = Some (identifierNode receiver 0),
      getChildren = [identifierNode receiver 0, tokenNode DotToken ''.'' (length receiver),
                     identifierNode method (length receiver + 1)]\<rparr>"

text \<open>\<^verbatim>\<open>User\<close> belongs to many \<^verbatim>\<open>Role\<close> through \<^verbatim>\<open>UserRole\<close>.\<close>

definition userModel :: ModelStatic where
  "userModel =
     \<lparr>name = ''User'', getTableName = TableNameString ''users'',
      associations =
        [(''roles'',
          \<lparr>associationType = BelongsToMany,
           target = \<lparr>name = ''Role'', getTableName = TableNameString ''roles''\<rparr>,
           through = Some (ThroughString ''UserRole'')\<rparr>)]\<rparr>"

definition roleModel :: ModelStatic where
  "roleModel =
     \<lparr>name = ''Role'', getTableName = TableNameString ''roles'', associations = []\<rparr>"

definition userRoleModel :: ModelStatic where
  "userRoleModel =
     \<lparr>name = ''UserRole'', getTableName = TableNameString ''user_roles'', associations = []\<rparr>"

definition exampleModels :: SequelizeParserAvailableModelsRecord where
  "exampleModels = [(''User'', userModel), (''Role'', roleModel), (''UserRole'', userRoleModel)]"

definition noSymbolChecker :: TypeChecker where
  "noSymbolChecker node = \<lparr>getSymbol = None\<rparr>"

text \<open>\<^verbatim>\<open>User.upsert(x)\<close> and \<^verbatim>\<open>User.findAll(x)\<close>.\<close>

definition upsertCall :: CallExpression where
  "upsertCall = \<lparr>expression = propertyAccess ''User'' ''upsert'', arguments = [OtherExpression]\<rparr>"

definition findAllCall :: CallExpression where
  "findAllCall = \<lparr>expression = propertyAccess ''User'' ''findAll'', arguments = [OtherExpression]\<rparr>"

text \<open>A checker that knows the types of some variables by their names.\<close>

definition typedVariables :: "(string \<times> string) list \<Rightarrow> TypeChecker" where
  "typedVariables vs node =
     (case map_of vs (getText node) of
        None \<Rightarrow> \<lparr>getSymbol = None\<rparr>
      | Some t \<Rightarrow> \<lparr>getSymbol = Some \<lparr>getName = t, getDeclarations = None\<rparr>\<rparr>)"

text \<open>
  \<^verbatim>\<open>receiver?.method\<close> has the three children receiver, question-dot token, name;
  \<^verbatim>\<open>receiver[argument]\<close> has the four children receiver, open bracket, argument, close
  bracket; an identifier has no children and no first token.
\<close>

definition optionalPropertyAccess :: "string \<Rightarrow> string \<Rightarrow> Expression" where
  "optionalPropertyAccess receiver method =
     \<lparr>getSourceFile = True,
      getFirstToken = Some (identifierNode receiver 0),
      getChildren = [identifierNode receiver 0, tokenNode QuestionDotToken ''?.'' (length receiver),
                     identifierNode method (length receiver + 2)]\<rparr>"

definition elementAccess :: "string \<Rightarrow> TsNode \<Rightarrow> Expression" where
  "elementAccess receiver argument =
     \<lparr>getSourceFile = True,
      getFirstToken = Some (identifierNode receiver 0),
      getChildren = [identifierNode receiver 0, tokenNode OpenBracketToken ''['' (length receiver),
                     argument,
                     tokenNode CloseBracketToken '']'' (pos argument + length (getText argument))]\<rparr>"

definition plainCallee :: Expression where
  "plainCallee = \<lparr>getSourceFile = True, getFirstToken = None, getChildren = []\<rparr>"

text \<open>
  \<^verbatim>\<open>Author\<close> has many \<^verbatim>\<open>Post\<close>, in a registry that holds \<^verbatim>\<open>Author\<close> alone, and the
  call \<^verbatim>\<open>author.$add("posts", post)\<close>; the association \<^verbatim>\<open>roles\<close> of \<^verbatim>\<open>User\<close>.
\<close>

definition postsAssociation :: Association where
  "postsAssociation =
     \<lparr>associationType = HasMany,
      target = \<lparr>name = ''Post'', getTableName = TableNameString ''posts''\<rparr>,
      through = None\<rparr>"

definition authorModel :: ModelStatic where
  "authorModel =
     \<lparr>name = ''Author'', getTableName = TableNameString ''authors'',
      associations = [(''posts'', postsAssociation)]\<rparr>"

definition authorModels :: SequelizeParserAvailableModelsRecord where
  "authorModels = [(''Author'', authorModel)]"

definition rolesAssociation :: Association where
  "rolesAssociation =
     \<lparr>associationType = BelongsToMany,
      target = \<lparr>name = ''Role'', getTableName = TableNameString ''roles''\<rparr>,
      through = Some (ThroughString ''UserRole'')\<rparr>"

definition twoArguments :: "string \<Rightarrow> ArgumentExpression list" where
  "twoArguments text = [StringLiteralExpression text, OtherExpression]"

definition setRolesCall :: CallExpression where
  "setRolesCall =
     \<lparr>expression = propertyAccess ''user'' ''$set'', arguments = twoArguments ''roles''\<rparr>"

definition addPostsCall :: CallExpression where
  "addPostsCall =
     \<lparr>expression = propertyAccess ''author'' ''$add'', arguments = twoArguments ''posts''\<rparr>"

text \<open>
  A registry without the join entity \<^verbatim>\<open>UserRole\<close>, and a program of one source file
  that imports \<^verbatim>\<open>User\<close> and \<^verbatim>\<open>Role\<close> and calls \<^verbatim>\<open>Role.create(x)\<close>.
\<close>

definition partialModels :: SequelizeParserAvailableModelsRecord where
  "partialModels = [(''User'', userModel), (''Role'', roleModel)]"

definition roleCreateProgram :: Program where
  "roleCreateProgram =
     \<lparr>getSourceFiles =
        [\<lparr>isDeclarationFile = False,
          sourceNode =
            OtherNode
              [ImportDeclarationNode
                 \<lparr>moduleSpecifier = Some ''./models'',
                  namedImports =
                    [\<lparr>specifierName = ''User'', propertyName = None\<rparr>,
                     \<lparr>specifierName = ''Role'', propertyName = None\<rparr>]\<rparr>,
               OtherNode
                 [CallExpressionNode
                    \<lparr>expression = propertyAccess ''Role'' ''create'',
                     arguments = [OtherExpression]\<rparr>
                    [OtherNode []]]]\<rparr>],
      getTypeChecker = noSymbolChecker\<rparr>"

definition defaultOptions :: SequelizeParserOptions where
  "defaultOptions = \<lparr>tsConfigName = None, onlyFromSpecificModuleImport = None\<rparr>"

text \<open>
  The store after the traversal of the program that imports \<^verbatim>\<open>User\<close> and \<^verbatim>\<open>Role\<close> and
  calls \<^verbatim>\<open>Role.create(x)\<close>, and the store after the completion pass with the full registry.
\<close>

definition traversedStore :: SequelizeFoundModelsRecord where
  "traversedStore =
     [(''User'', \<lparr>table = ''users'', isSelect = True, isInsert = False, isUpdate = False,
                  isDelete = False\<rparr>),
      (''Role'', \<lparr>table = ''roles'', isSelect = True, isInsert = True, isUpdate = False,
                  isDelete = False\<rparr>)]"

definition completedStore :: SequelizeFoundModelsRecord where
  "completedStore =
     traversedStore @
     [(''UserRole'', \<lparr>table = ''user_roles'', isSelect = True, isInsert = True,
                      isUpdate = False, isDelete = False\<rparr>)]"

text \<open>
  \<^verbatim>\<open>Game\<close> belongs to many \<^verbatim>\<open>Team\<close> through \<^verbatim>\<open>GameTeam\<close>, and \<^verbatim>\<open>Player\<close> belongs to
  many \<^verbatim>\<open>GameTeam\<close> through \<^verbatim>\<open>PlayerGameTeam\<close>: the join entity of the first association
  is the target of the second. The store is the one left by a traversal that found
  \<^verbatim>\<open>Player\<close>, \<^verbatim>\<open>Game\<close> and \<^verbatim>\<open>Team\<close> through imports.
\<close>

definition plainModel :: "string \<Rightarrow> (string \<times> Association) list \<Rightarrow> ModelStatic" where
  "plainModel n as = \<lparr>name = n, getTableName = TableNameString n, associations = as\<rparr>"

definition belongsToMany :: "string \<Rightarrow> string \<Rightarrow> Association" where
  "belongsToMany targetName throughName =
     \<lparr>associationType = BelongsToMany,
      target = \<lparr>name = targetName, getTableName = TableNameString targetName\<rparr>,
      through = Some (ThroughString throughName)\<rparr>"

definition tournamentModels :: SequelizeParserAvailableModelsRecord where
  "tournamentModels =
     [(''Game'', plainModel ''Game'' [(''teams'', belongsToMany ''Team'' ''GameTeam'')]),
      (''Team'', plainModel ''Team'' []),
      (''GameTeam'', plainModel ''GameTeam'' []),
      (''Player'', plainModel ''Player''
         [(''gameTeams'', belongsToMany ''GameTeam'' ''PlayerGameTeam'')]),
      (''PlayerGameTeam'', plainModel ''PlayerGameTeam'' [])]"

definition tournamentStore :: SequelizeFoundModelsRecord where
  "tournamentStore =
     [(''Player'', freshRecord (plainModel ''Player'' [])),
      (''Game'', freshRecord (plainModel ''Game'' [])),
      (''Team'', freshRecord (plainModel ''Team'' []))]"

text \<open>
  \<^verbatim>\<open>User\<close> with two many-to-many associations to \<^verbatim>\<open>Role\<close>: \<^verbatim>\<open>archivedRoles\<close> through
  \<^verbatim>\<open>RoleArchive\<close>, which the registry does not have, and \<^verbatim>\<open>roles\<close> through \<^verbatim>\<open>UserRole\<close>,
  which it has.
\<close>

definition archivedRolesAssociation :: Association where
  "archivedRolesAssociation =
     \<lparr>associationType = BelongsToMany,
      target = \<lparr>name = ''Role'', getTableName = TableNameString ''roles''\<rparr>,
      through = Some (ThroughString ''RoleArchive'')\<rparr>"

definition archivingUserModel :: ModelStatic where
  "archivingUserModel =
     \<lparr>name = ''User'', getTableName = TableNameString ''users'',
      associations =
        [(''archivedRoles'', archivedRolesAssociation), (''roles'', rolesAssociation)]\<rparr>"

definition archivingModels :: SequelizeParserAvailableModelsRecord where
  "archivingModels =
     [(''User'', archivingUserModel), (''Role'', roleModel), (''UserRole'', userRoleModel)]"


section \<open>Properties\<close>

subsection \<open>The store operations\<close>

lemma map_of_getOrCreate:
  "map_of (getOrCreateModelOperations model fm) k =
     (if k = name model \<and> map_of fm k = None then Some (freshRecord model) else map_of fm k)"
  by (auto simp: getOrCreateModelOperations_def freshRecord_def map_add_def split: option.splits)

lemma keys_getOrCreate:
  "map fst (getOrCreateModelOperations model fm) =
     (if map_of fm (name model) = None then map fst fm @ [name model] else map fst fm)"
  by (auto simp: getOrCreateModelOperations_def split: option.splits)

lemma map_of_setInsert:
  "map_of (setInsert j fm) k =
     (if k = j then map_option (\<lambda>r. r\<lparr>isInsert := True\<rparr>) (map_of fm k) else map_of fm k)"
  by (simp add: setInsert_def map_of_map_entry split: option.splits)

lemma map_of_setUpdate:
  "map_of (setUpdate j fm) k =
     (if k = j then map_option (\<lambda>r. r\<lparr>isUpdate := True\<rparr>) (map_of fm k) else map_of fm k)"
  by (simp add: setUpdate_def map_of_map_entry split: option.splits)

lemma map_of_setDelete:
  "map_of (setDelete j fm) k =
     (if k = j then map_option (\<lambda>r. r\<lparr>isDelete := True\<rparr>) (map_of fm k) else map_of fm k)"
  by (simp add: setDelete_def map_of_map_entry split: option.splits)

lemma keys_map_entry: "map fst (AList.map_entry k f xs) = map fst xs"
  by (induction xs) auto

lemma keys_setFlag:
  "map fst (setInsert j fm) = map fst fm"
  "map fst (setUpdate j fm) = map fst fm"
  "map fst (setDelete j fm) = map fst fm"
  by (simp_all add: setInsert_def setUpdate_def setDelete_def keys_map_entry)

lemma table_classifier:
  "(case map_of SequelizeDefaultWriteMethodsRecord method of
      None \<Rightarrow> {} | Some ops \<Rightarrow> set ops) = classifierTable method"
  by (simp add: SequelizeDefaultWriteMethodsRecord_def classifierTable_def)

lemma table_dom:
  "(map_of SequelizeDefaultWriteMethodsRecord method \<noteq> None) = (method \<in> set directVocabulary)"
  by (simp add: SequelizeDefaultWriteMethodsRecord_def directVocabulary_def)

lemma vocab15: "distinct directVocabulary \<and> length directVocabulary = 15"
  by (simp add: directVocabulary_def)

lemma mixin_not_direct:
  "isSequelizeTypescriptGeneratedWriteMethod method \<Longrightarrow> method \<notin> set directVocabulary"
  by (auto simp: isSequelizeTypescriptGeneratedWriteMethod_def
      SequelizeTypescriptGeneratedWriteMixins_def directVocabulary_def)

lemma map_of_fold_applyOperation:
  "map_of (fold (applyOperation key) ops fm) k =
     (if k = key then map_option (withOperations (set ops)) (map_of fm k) else map_of fm k)"
proof (induction ops arbitrary: fm)
  case Nil
  show ?case by (simp add: withOperations_def option.map_ident)
next
  case (Cons op ops)
  show ?case
    by (cases op)
      (auto simp: Cons.IH map_of_setInsert map_of_setUpdate map_of_setDelete
        withOperations_def option.map_comp o_def split: option.splits)
qed

lemma isMixin_simps:
  "isSequelizeTypescriptGeneratedWriteMethod method =
     (method = ''$add'' \<or> method = ''$create'' \<or> method = ''$set'' \<or> method = ''$remove'')"
  by (simp add: isSequelizeTypescriptGeneratedWriteMethod_def
      SequelizeTypescriptGeneratedWriteMixins_def)

lemma isWriteMethod_iff:
  "isSequelizeModelWriteMethod method =
     (method \<in> set directVocabulary \<or> isSequelizeTypescriptGeneratedWriteMethod method)"
  by (auto simp: isSequelizeModelWriteMethod_def SequelizeDefaultWriteMethodsRecord_def
      directVocabulary_def)

lemma writeMethod_nonempty: "isSequelizeModelWriteMethod method \<Longrightarrow> method \<noteq> []"
  by (auto simp: isWriteMethod_iff isMixin_simps directVocabulary_def)

lemma processCallExpression_classified:
  assumes "classifiedCall node firstNode method"
    and "isSequelizeModelWriteMethod method"
  shows "processCallExpression availableModels checker node foundModels =
     (case findModelFromNode availableModels checker firstNode of
        None \<Rightarrow> foundModels
      | Some model \<Rightarrow>
          processModelTypescriptMixins availableModels model method (arguments node)
            (processModelWriteMethod model method foundModels))"
  using assms writeMethod_nonempty[OF assms(2)]
  by (auto simp: processCallExpression_def classifiedCall_def Let_def split: option.splits)

lemma processCallExpression_rejected:
  assumes "3 \<le> length (getChildren (expression node)) \<Longrightarrow>
      \<not> isSequelizeModelWriteMethod (getText (getChildren (expression node) ! 2))"
  shows "processCallExpression availableModels checker node foundModels = foundModels"
  using assms by (auto simp: processCallExpression_def Let_def)

lemma map_of_processModelWriteMethod:
  assumes "method \<in> set directVocabulary"
  shows "map_of (processModelWriteMethod model method fm) k =
     (if k = name model
      then Some (withOperations (classifierTable method)
                  (case map_of fm k of None \<Rightarrow> freshRecord model | Some r \<Rightarrow> r))
      else map_of fm k)"
proof -
  from assms have nm: "\<not> isSequelizeTypescriptGeneratedWriteMethod method"
    using mixin_not_direct by blast
  from assms obtain ops where ops: "map_of SequelizeDefaultWriteMethodsRecord method = Some ops"
    using table_dom[of "method"] by auto
  with table_classifier[of "method"] have cl: "classifierTable method = set ops" by simp
  show ?thesis
    by (simp add: processModelWriteMethod_def nm ops cl map_of_fold_applyOperation
        map_of_getOrCreate split: option.splits)
qed

lemma processModelTypescriptMixins_direct:
  "\<not> isSequelizeTypescriptGeneratedWriteMethod method \<Longrightarrow>
   processModelTypescriptMixins availableModels model method args fm = fm"
  by (simp add: processModelTypescriptMixins_def)

subsection \<open>The operation classifier\<close>

text \<open>
  C3. The table of direct write methods is the specification's: create, bulkCreate,
  findOrCreate, findOrBuild, findCreateFind and build imply INSERT; update, save, set,
  increment, decrement, restore and bulkUpdate imply UPDATE; destroy implies DELETE;
  upsert implies INSERT and UPDATE; its keys are exactly these fifteen names. A classified
  call of such a method on a resolved entity leaves that entity's record (created if
  missing) with exactly these flags switched on and every other record as it was; a call of
  a method that is in neither vocabulary leaves the store as it was.
\<close>

theorem direct_write_classifier:
  "(case map_of SequelizeDefaultWriteMethodsRecord method of
      None \<Rightarrow> {} | Some ops \<Rightarrow> set ops) = classifierTable method
   \<and> (map_of SequelizeDefaultWriteMethodsRecord method \<noteq> None) = (method \<in> set directVocabulary)
   \<and> distinct directVocabulary \<and> length directVocabulary = 15
   \<and> (classifiedCall node firstNode method \<and> method \<in> set directVocabulary
        \<and> findModelFromNode availableModels checker firstNode = Some model
      \<longrightarrow> map_of (processCallExpression availableModels checker node foundModels) k =
            (if k = name model
             then Some (withOperations (classifierTable method)
                         (case map_of foundModels k of
                            None \<Rightarrow> freshRecord model | Some r \<Rightarrow> r))
             else map_of foundModels k))
   \<and> ((3 \<le> length (getChildren (expression node')) \<longrightarrow>
          getText (getChildren (expression node') ! 2) \<notin> set directVocabulary
          \<and> \<not> isSequelizeTypescriptGeneratedWriteMethod
                 (getText (getChildren (expression node') ! 2)))
      \<longrightarrow> processCallExpression availableModels checker node' foundModels = foundModels)"
proof -
  have a: "(case map_of SequelizeDefaultWriteMethodsRecord method of
      None \<Rightarrow> {} | Some ops \<Rightarrow> set ops) = classifierTable method"
    by (rule table_classifier)
  have b: "(map_of SequelizeDefaultWriteMethodsRecord method \<noteq> None) = (method \<in> set directVocabulary)"
    by (rule table_dom)
  have c: "classifiedCall node firstNode method \<and> method \<in> set directVocabulary
        \<and> findModelFromNode availableModels checker firstNode = Some model
      \<longrightarrow> map_of (processCallExpression availableModels checker node foundModels) k =
            (if k = name model
             then Some (withOperations (classifierTable method)
                         (case map_of foundModels k of
                            None \<Rightarrow> freshRecord model | Some r \<Rightarrow> r))
             else map_of foundModels k)"
  proof (intro impI, elim conjE)
    assume h: "classifiedCall node firstNode method" "method \<in> set directVocabulary"
      "findModelFromNode availableModels checker firstNode = Some model"
    have w: "isSequelizeModelWriteMethod method" using h(2) by (simp add: isWriteMethod_iff)
    have nm: "\<not> isSequelizeTypescriptGeneratedWriteMethod method"
      using h(2) mixin_not_direct by blast
    show "map_of (processCallExpression availableModels checker node foundModels) k =
            (if k = name model
             then Some (withOperations (classifierTable method)
                         (case map_of foundModels k of
                            None \<Rightarrow> freshRecord model | Some r \<Rightarrow> r))
             else map_of foundModels k)"
      by (simp only: processCallExpression_classified[OF h(1) w] h(3) option.case
          processModelTypescriptMixins_direct[OF nm] map_of_processModelWriteMethod[OF h(2)])
  qed
  have d: "(3 \<le> length (getChildren (expression node')) \<longrightarrow>
          getText (getChildren (expression node') ! 2) \<notin> set directVocabulary
          \<and> \<not> isSequelizeTypescriptGeneratedWriteMethod
                 (getText (getChildren (expression node') ! 2)))
      \<longrightarrow> processCallExpression availableModels checker node' foundModels = foundModels"
    by (intro impI processCallExpression_rejected) (simp add: isWriteMethod_iff)
  from a b c d vocab15 show ?thesis by blast
qed

theorem direct_write_classifier_witness:
  "classifiedCall upsertCall (identifierNode ''User'' 0) ''upsert''
   \<and> ''upsert'' \<in> set directVocabulary
   \<and> findModelFromNode exampleModels noSymbolChecker (identifierNode ''User'' 0) = Some userModel
   \<and> map_of (processCallExpression exampleModels noSymbolChecker upsertCall []) ''User'' =
       Some \<lparr>table = ''users'', isSelect = True, isInsert = True, isUpdate = True,
             isDelete = False\<rparr>
   \<and> getText (getChildren (expression findAllCall) ! 2) \<notin> set directVocabulary
   \<and> processCallExpression exampleModels noSymbolChecker findAllCall [] = []"
proof -
  have h1: "classifiedCall upsertCall (identifierNode ''User'' 0) ''upsert''"
    by (simp add: classifiedCall_def upsertCall_def propertyAccess_def identifierNode_def)
  have h2: "''upsert'' \<in> set directVocabulary" by (simp add: directVocabulary_def)
  have h3: "findModelFromNode exampleModels noSymbolChecker (identifierNode ''User'' 0) = Some userModel"
    by (simp add: findModelFromNode_def exampleModels_def identifierNode_def)
  have h4: "3 \<le> length (getChildren (expression findAllCall)) \<longrightarrow>
          getText (getChildren (expression findAllCall) ! 2) \<notin> set directVocabulary
          \<and> \<not> isSequelizeTypescriptGeneratedWriteMethod
                 (getText (getChildren (expression findAllCall) ! 2))"
    by (simp add: findAllCall_def propertyAccess_def identifierNode_def directVocabulary_def
        isMixin_simps)
  from direct_write_classifier[of "''upsert''" upsertCall "identifierNode ''User'' 0"
      exampleModels noSymbolChecker userModel "[]" "''User''" findAllCall] h1 h2 h3 h4
  show ?thesis
    by (simp add: classifierTable_def withOperations_def freshRecord_def userModel_def
        getSequelizeModelTableName_def findAllCall_def propertyAccess_def identifierNode_def
        directVocabulary_def)
qed

subsection \<open>The association mixins\<close>

lemma processModelWriteMethod_mixin:
  "isSequelizeTypescriptGeneratedWriteMethod method \<Longrightarrow>
   processModelWriteMethod model method fm = fm"
  by (simp add: processModelWriteMethod_def)

lemma withOperations_empty: "withOperations {} r = r"
  by (simp add: withOperations_def)

lemma map_option_withOperations_empty: "map_option (withOperations {}) m = m"
  by (cases m) (simp_all add: withOperations_empty)

lemma map_of_mixinSwitch:
  assumes "isSequelizeTypescriptGeneratedWriteMethod verb"
  shows "map_of (mixinSwitch verb tk jk fm) k =
     map_option
       (withOperations
          ((if k = tk then fst (effectTable verb (jk \<noteq> None)) else {})
           \<union> (if Some k = jk then snd (effectTable verb (jk \<noteq> None)) else {})))
       (map_of fm k)"
proof -
  from assms consider "verb = ''$add''" | "verb = ''$create''" | "verb = ''$set''"
    | "verb = ''$remove''"
    by (auto simp: isMixin_simps)
  then show ?thesis
  proof cases
    case 1
    then show ?thesis
      by (cases jk; cases "map_of fm k")
        (auto simp: mixinSwitch_def effectTable_def map_of_setInsert map_of_setUpdate
          map_of_setDelete withOperations_def)
  next
    case 2
    then show ?thesis
      by (cases jk; cases "map_of fm k")
        (auto simp: mixinSwitch_def effectTable_def map_of_setInsert map_of_setUpdate
          map_of_setDelete withOperations_def)
  next
    case 3
    then show ?thesis
      by (cases jk; cases "map_of fm k")
        (auto simp: mixinSwitch_def effectTable_def map_of_setInsert map_of_setUpdate
          map_of_setDelete withOperations_def)
  next
    case 4
    then show ?thesis
      by (cases jk; cases "map_of fm k")
        (auto simp: mixinSwitch_def effectTable_def map_of_setInsert map_of_setUpdate
          map_of_setDelete withOperations_def)
  qed
qed

lemma processModelTypescriptMixins_effect:
  assumes "isSequelizeTypescriptGeneratedWriteMethod verb"
    and "2 \<le> length args"
    and "args ! 0 = StringLiteralExpression text"
    and "map_of (associations sourceModel) text = Some association"
    and "map_of availableModels (name (target association)) = Some registered"
  shows "processModelTypescriptMixins availableModels sourceModel verb args fm =
     (case findThroughModel availableModels association of
        None \<Rightarrow> mixinSwitch verb (name (target association)) None
                  (getOrCreateModelOperations (target association) fm)
      | Some throughModel \<Rightarrow>
          mixinSwitch verb (name (target association)) (Some (name throughModel))
            (getOrCreateModelOperations throughModel
               (getOrCreateModelOperations (target association) fm)))"
  using assms
  by (simp add: processModelTypescriptMixins_def getThroughModelOperations_def
      split: option.splits)


text \<open>
  C1, as the claim states it: a mixin call on a resolved receiver with a string literal
  that names an association of the entity applies the flags of the effect table. It fails
  when the target of the association is not a registered entity: for
  \<^verbatim>\<open>author.$add("posts", post)\<close>, where \<^verbatim>\<open>Post\<close> is not registered and no join entity is
  resolved, the table gives \<^verbatim>\<open>target.update\<close>, and the call leaves the store empty.
\<close>

theorem mixin_effect_table_counterexample:
  "isSequelizeTypescriptGeneratedWriteMethod ''$add''
   \<and> classifiedCall addPostsCall (identifierNode ''author'' 0) ''$add''
   \<and> arguments addPostsCall = [StringLiteralExpression ''posts'', OtherExpression]
   \<and> findModelFromNode authorModels (typedVariables [(''author'', ''Author'')])
        (identifierNode ''author'' 0) = Some authorModel
   \<and> map_of (associations authorModel) ''posts'' = Some postsAssociation
   \<and> findThroughModel authorModels postsAssociation = None
   \<and> fst (effectTable ''$add'' False) = {UPDATE}
   \<and> processCallExpression authorModels (typedVariables [(''author'', ''Author'')])
        addPostsCall [] = []"
  by (simp add: isMixin_simps classifiedCall_def addPostsCall_def propertyAccess_def
      identifierNode_def tokenNode_def findModelFromNode_def typedVariables_def
      authorModels_def authorModel_def postsAssociation_def findThroughModel_def
      effectTable_def processCallExpression_def isSequelizeModelWriteMethod_def
      processModelWriteMethod_def processModelTypescriptMixins_def twoArguments_def)

text \<open>
  C1, amended: for a call whose callee passes the structural test with one of the four
  mixin verbs as method name, whose first token resolves to a registered entity, that has
  at least two arguments, the first a string literal naming an association of that entity:
  when the target of the association is a registered entity, the store after the call is
  the store before it with a record created for the target entity and for the resolved
  join entity where missing, and with exactly the flags of the effect table switched on,
  those of the target column on the target's record and those of the through column on
  the join record, every other record and every other insert, update and delete flag
  being as before; when the target is not a registered entity, the call leaves the store
  as it was.
\<close>

theorem mixin_effect_table:
  assumes "classifiedCall node firstNode verb"
    and "isSequelizeTypescriptGeneratedWriteMethod verb"
    and "findModelFromNode availableModels checker firstNode = Some sourceModel"
    and "2 \<le> length (arguments node)"
    and "arguments node ! 0 = StringLiteralExpression text"
    and "map_of (associations sourceModel) text = Some association"
  shows "(map_of availableModels (name (target association)) \<noteq> None \<longrightarrow>
      map_of (processCallExpression availableModels checker node foundModels) k =
       (if k = name (target association)
           \<or> Some k = map_option name (findThroughModel availableModels association)
        then Some (withOperations
               ((if k = name (target association)
                 then fst (effectTable verb
                             (findThroughModel availableModels association \<noteq> None))
                 else {})
                \<union> (if Some k = map_option name (findThroughModel availableModels association)
                   then snd (effectTable verb
                               (findThroughModel availableModels association \<noteq> None))
                   else {}))
               (case map_of foundModels k of
                  Some r \<Rightarrow> r
                | None \<Rightarrow>
                    if k = name (target association) then freshRecord (target association)
                    else (case findThroughModel availableModels association of
                            Some throughModel \<Rightarrow> freshRecord throughModel
                          | None \<Rightarrow> freshRecord (target association))))
        else map_of foundModels k))
    \<and> (map_of availableModels (name (target association)) = None \<longrightarrow>
        processCallExpression availableModels checker node foundModels = foundModels)"
proof -
  have w: "isSequelizeModelWriteMethod verb" using assms(2) by (simp add: isWriteMethod_iff)
  have call: "processCallExpression availableModels checker node foundModels =
      processModelTypescriptMixins availableModels sourceModel verb (arguments node) foundModels"
    by (simp add: processCallExpression_classified[OF assms(1) w] assms(3)
        processModelWriteMethod_mixin[OF assms(2)])
  have unregistered: "processModelTypescriptMixins availableModels sourceModel verb
      (arguments node) foundModels = foundModels"
    if "map_of availableModels (name (target association)) = None"
    using that assms(2,4,5,6) by (simp add: processModelTypescriptMixins_def)
  have registered: "map_of (processModelTypescriptMixins availableModels sourceModel verb
        (arguments node) foundModels) k =
       (if k = name (target association)
           \<or> Some k = map_option name (findThroughModel availableModels association)
        then Some (withOperations
               ((if k = name (target association)
                 then fst (effectTable verb
                             (findThroughModel availableModels association \<noteq> None))
                 else {})
                \<union> (if Some k = map_option name (findThroughModel availableModels association)
                   then snd (effectTable verb
                               (findThroughModel availableModels association \<noteq> None))
                   else {}))
               (case map_of foundModels k of
                  Some r \<Rightarrow> r
                | None \<Rightarrow>
                    if k = name (target association) then freshRecord (target association)
                    else (case findThroughModel availableModels association of
                            Some throughModel \<Rightarrow> freshRecord throughModel
                          | None \<Rightarrow> freshRecord (target association))))
        else map_of foundModels k)"
    if reg: "map_of availableModels (name (target association)) = Some registered" for registered
  proof (cases "findThroughModel availableModels association")
    case None
    show ?thesis
      by (simp add: processModelTypescriptMixins_effect[OF assms(2,4,5,6) reg] None
          map_of_mixinSwitch[OF assms(2)] map_of_getOrCreate withOperations_empty
          map_option_withOperations_empty split: option.splits)
  next
    case (Some throughModel)
    show ?thesis
      by (cases "map_of foundModels k"; cases "k = name (target association)";
          cases "k = name throughModel")
        (simp_all add: processModelTypescriptMixins_effect[OF assms(2,4,5,6) reg] Some
          map_of_mixinSwitch[OF assms(2)] map_of_getOrCreate withOperations_empty)
  qed
  show ?thesis
    using registered unregistered by (auto simp: call)
qed

theorem mixin_effect_table_witness:
  "classifiedCall setRolesCall (identifierNode ''user'' 0) ''$set''
   \<and> isSequelizeTypescriptGeneratedWriteMethod ''$set''
   \<and> findModelFromNode exampleModels (typedVariables [(''user'', ''User'')])
        (identifierNode ''user'' 0) = Some userModel
   \<and> 2 \<le> length (arguments setRolesCall)
   \<and> arguments setRolesCall ! 0 = StringLiteralExpression ''roles''
   \<and> map_of (associations userModel) ''roles'' = Some rolesAssociation
   \<and> map_of exampleModels (name (target rolesAssociation)) \<noteq> None
   \<and> map_of (processCallExpression exampleModels (typedVariables [(''user'', ''User'')])
               setRolesCall []) ''UserRole'' =
       Some \<lparr>table = ''user_roles'', isSelect = True, isInsert = True, isUpdate = True,
             isDelete = True\<rparr>
   \<and> classifiedCall addPostsCall (identifierNode ''author'' 0) ''$add''
   \<and> findModelFromNode authorModels (typedVariables [(''author'', ''Author'')])
        (identifierNode ''author'' 0) = Some authorModel
   \<and> map_of (associations authorModel) ''posts'' = Some postsAssociation
   \<and> map_of authorModels (name (target postsAssociation)) = None
   \<and> processCallExpression authorModels (typedVariables [(''author'', ''Author'')])
        addPostsCall [(''Author'', freshRecord authorModel)] =
       [(''Author'', freshRecord authorModel)]"
proof -
  have a1: "classifiedCall setRolesCall (identifierNode ''user'' 0) ''$set''"
    by (simp add: classifiedCall_def setRolesCall_def propertyAccess_def identifierNode_def)
  have a2: "isSequelizeTypescriptGeneratedWriteMethod ''$set''" by (simp add: isMixin_simps)
  have a3: "findModelFromNode exampleModels (typedVariables [(''user'', ''User'')])
        (identifierNode ''user'' 0) = Some userModel"
    by (simp add: findModelFromNode_def exampleModels_def typedVariables_def identifierNode_def)
  have a4: "2 \<le> length (arguments setRolesCall)"
    by (simp add: setRolesCall_def twoArguments_def)
  have a5: "arguments setRolesCall ! 0 = StringLiteralExpression ''roles''"
    by (simp add: setRolesCall_def twoArguments_def)
  have a6: "map_of (associations userModel) ''roles'' = Some rolesAssociation"
    by (simp add: userModel_def rolesAssociation_def)
  have a7: "map_of exampleModels (name (target rolesAssociation)) \<noteq> None"
    by (simp add: exampleModels_def rolesAssociation_def)
  have t: "findThroughModel exampleModels rolesAssociation = Some userRoleModel"
    by (simp add: findThroughModel_def rolesAssociation_def exampleModels_def)
  have n: "name (target rolesAssociation) = ''Role''" by (simp add: rolesAssociation_def)
  have f: "freshRecord userRoleModel =
      \<lparr>table = ''user_roles'', isSelect = True, isInsert = False, isUpdate = False,
       isDelete = False\<rparr>"
    by (simp add: freshRecord_def userRoleModel_def getSequelizeModelTableName_def)
  have u: "name userRoleModel = ''UserRole''" by (simp add: userRoleModel_def)
  have b1: "classifiedCall addPostsCall (identifierNode ''author'' 0) ''$add''"
    by (simp add: classifiedCall_def addPostsCall_def propertyAccess_def identifierNode_def)
  have b2: "isSequelizeTypescriptGeneratedWriteMethod ''$add''" by (simp add: isMixin_simps)
  have b3: "findModelFromNode authorModels (typedVariables [(''author'', ''Author'')])
        (identifierNode ''author'' 0) = Some authorModel"
    by (simp add: findModelFromNode_def authorModels_def typedVariables_def identifierNode_def)
  have b4: "2 \<le> length (arguments addPostsCall)"
    by (simp add: addPostsCall_def twoArguments_def)
  have b5: "arguments addPostsCall ! 0 = StringLiteralExpression ''posts''"
    by (simp add: addPostsCall_def twoArguments_def)
  have b6: "map_of (associations authorModel) ''posts'' = Some postsAssociation"
    by (simp add: authorModel_def)
  have b7: "map_of authorModels (name (target postsAssociation)) = None"
    by (simp add: authorModels_def postsAssociation_def)
  from mixin_effect_table[OF a1 a2 a3 a4 a5 a6, where foundModels = "[]"
      and k = "''UserRole''"]
    mixin_effect_table[OF b1 b2 b3 b4 b5 b6,
      where foundModels = "[(''Author'', freshRecord authorModel)]" and k = "''Author''"]
    a1 a2 a3 a4 a5 a6 a7 b1 b3 b6 b7
  show ?thesis
    by (simp add: t n f u effectTable_def withOperations_def)
qed

lemma selectInvariant_lookup:
  "selectInvariant fm \<Longrightarrow> map_of fm k = Some r \<Longrightarrow> isSelect r"
  by (auto simp: selectInvariant_def list_all_iff dest: map_of_SomeD)

lemma isSelect_withOperations: "isSelect (withOperations ops r) = isSelect r"
  by (simp add: withOperations_def)

lemma isSelect_freshRecord: "isSelect (freshRecord model)"
  by (simp add: freshRecord_def)

text \<open>
  C10. A mixin call that reaches the effect stage (one of the four verbs, at least two
  arguments, a string literal naming an association of the source entity, a registered
  target) leaves a record for the target entity in the store, with its select flag set,
  whatever the verb and whether or not a join entity is resolved.
\<close>

theorem mixin_target_record:
  assumes "isSequelizeTypescriptGeneratedWriteMethod verb"
    and "2 \<le> length args"
    and "args ! 0 = StringLiteralExpression text"
    and "map_of (associations sourceModel) text = Some association"
    and "map_of availableModels (name (target association)) = Some registered"
    and "selectInvariant foundModels"
  shows "\<exists>r. map_of (processModelTypescriptMixins availableModels sourceModel verb args foundModels)
               (name (target association)) = Some r \<and> isSelect r"
proof (cases "findThroughModel availableModels association")
  case None
  show ?thesis
    using selectInvariant_lookup[OF assms(6)]
    by (auto simp: processModelTypescriptMixins_effect[OF assms(1-5)] None
        map_of_mixinSwitch[OF assms(1)] map_of_getOrCreate isSelect_withOperations
        isSelect_freshRecord)
next
  case (Some throughModel)
  show ?thesis
    using selectInvariant_lookup[OF assms(6)]
    by (auto simp: processModelTypescriptMixins_effect[OF assms(1-5)] Some
        map_of_mixinSwitch[OF assms(1)] map_of_getOrCreate isSelect_withOperations
        isSelect_freshRecord)
qed

theorem mixin_target_record_witness:
  "isSequelizeTypescriptGeneratedWriteMethod ''$add''
   \<and> selectInvariant []
   \<and> (\<exists>r. map_of (processModelTypescriptMixins exampleModels userModel ''$add''
                  (twoArguments ''roles'') []) ''Role'' = Some r \<and> isSelect r)
   \<and> \<not> readFlag isInsert ''Role''
         (processModelTypescriptMixins exampleModels userModel ''$add'' (twoArguments ''roles'') [])"
proof -
  have h1: "isSequelizeTypescriptGeneratedWriteMethod ''$add''" by (simp add: isMixin_simps)
  have h2: "2 \<le> length (twoArguments ''roles'')" by (simp add: twoArguments_def)
  have h3: "twoArguments ''roles'' ! 0 = StringLiteralExpression ''roles''"
    by (simp add: twoArguments_def)
  have h4: "map_of (associations userModel) ''roles'' = Some rolesAssociation"
    by (simp add: userModel_def rolesAssociation_def)
  have h5: "map_of exampleModels (name (target rolesAssociation)) = Some roleModel"
    by (simp add: exampleModels_def rolesAssociation_def)
  have h6: "selectInvariant []" by (simp add: selectInvariant_def)
  have n: "name (target rolesAssociation) = ''Role''" by (simp add: rolesAssociation_def)
  have e: "\<not> readFlag isInsert ''Role''
         (processModelTypescriptMixins exampleModels userModel ''$add'' (twoArguments ''roles'') [])"
    by (simp add: readFlag_def processModelTypescriptMixins_def isMixin_simps twoArguments_def
        userModel_def exampleModels_def roleModel_def userRoleModel_def
        getThroughModelOperations_def findThroughModel_def getOrCreateModelOperations_def
        mixinSwitch_def setInsert_def)
  from mixin_target_record[OF h1 h2 h3 h4 h5 h6] h1 h6 e show ?thesis
    by (simp add: n)
qed

subsection \<open>Calls and entity resolution\<close>

text \<open>
  C6, as the claim states it: a call whose callee is not the three parts receiver, dot,
  method name is rejected and has no usage effect, optional chaining included. It fails
  for optional chaining: \<^verbatim>\<open>user?.destroy()\<close> has the children receiver, question-dot
  token, name; the call is classified and sets the delete flag of \<^verbatim>\<open>User\<close>.
\<close>

theorem call_shape_counterexample:
  "map kind (getChildren (optionalPropertyAccess ''user'' ''destroy'')) =
     [Identifier, QuestionDotToken, Identifier]
   \<and> processCallExpression exampleModels (typedVariables [(''user'', ''User'')])
        \<lparr>expression = optionalPropertyAccess ''user'' ''destroy'', arguments = []\<rparr> [] =
      [(''User'', \<lparr>table = ''users'', isSelect = True, isInsert = False, isUpdate = False,
                   isDelete = True\<rparr>)]"
  by (simp add: optionalPropertyAccess_def identifierNode_def tokenNode_def
      processCallExpression_def isSequelizeModelWriteMethod_def
      SequelizeDefaultWriteMethodsRecord_def isMixin_simps findModelFromNode_def
      exampleModels_def typedVariables_def userModel_def
      processModelWriteMethod_def processModelTypescriptMixins_def
      getOrCreateModelOperations_def getSequelizeModelTableName_def setDelete_def)

text \<open>
  C6, amended: a call whose callee has no source file or no first token, has fewer than
  three token-level children, or has a third child that is not an identifier named in one
  of the two write-method vocabularies, is rejected: it leaves the store as it was,
  whatever the type checker answers. Plain function calls and bracket accesses whose index
  is not an identifier are such calls. A call whose callee is a member access, with a dot
  or with optional chaining, is classified exactly when its method name is in one of the
  vocabularies: it is then handed to entity resolution on its first token and to the two
  handlers, and otherwise it leaves the store as it was.
\<close>

theorem call_shape_gate:
  "(\<not> passesCallShape node \<longrightarrow>
      processCallExpression availableModels checker node foundModels = foundModels)
   \<and> (memberAccessCall node firstNode methodName \<longrightarrow>
      passesCallShape node = isSequelizeModelWriteMethod methodName
      \<and> processCallExpression availableModels checker node foundModels =
          (if isSequelizeModelWriteMethod methodName
           then (case findModelFromNode availableModels checker firstNode of
                   None \<Rightarrow> foundModels
                 | Some model \<Rightarrow>
                     processModelTypescriptMixins availableModels model methodName
                       (arguments node)
                       (processModelWriteMethod model methodName foundModels))
           else foundModels))
   \<and> \<not> passesCallShape \<lparr>expression = plainCallee, arguments = args\<rparr>
   \<and> (kind argument \<noteq> Identifier \<longrightarrow>
        \<not> passesCallShape \<lparr>expression = elementAccess receiver argument, arguments = args\<rparr>)
   \<and> memberAccessCall \<lparr>expression = propertyAccess receiver name', arguments = args\<rparr>
        (identifierNode receiver 0) name'
   \<and> memberAccessCall \<lparr>expression = optionalPropertyAccess receiver name', arguments = args\<rparr>
        (identifierNode receiver 0) name'"
proof -
  have a: "\<not> passesCallShape node \<longrightarrow>
      processCallExpression availableModels checker node foundModels = foundModels"
    by (auto simp: passesCallShape_def processCallExpression_def Let_def)
  have b: "passesCallShape node = isSequelizeModelWriteMethod methodName
      \<and> processCallExpression availableModels checker node foundModels =
          (if isSequelizeModelWriteMethod methodName
           then (case findModelFromNode availableModels checker firstNode of
                   None \<Rightarrow> foundModels
                 | Some model \<Rightarrow>
                     processModelTypescriptMixins availableModels model methodName
                       (arguments node)
                       (processModelWriteMethod model methodName foundModels))
           else foundModels)"
    if m: "memberAccessCall node firstNode methodName"
  proof -
    from m have c: "classifiedCall node firstNode methodName"
      by (simp add: memberAccessCall_def classifiedCall_def)
    from m have p: "passesCallShape node = isSequelizeModelWriteMethod methodName"
      by (auto simp: memberAccessCall_def passesCallShape_def)
    show ?thesis
    proof (cases "isSequelizeModelWriteMethod methodName")
      case True
      with p processCallExpression_classified[OF c True] show ?thesis by simp
    next
      case False
      with p a show ?thesis by simp
    qed
  qed
  have c: "\<not> passesCallShape \<lparr>expression = plainCallee, arguments = args\<rparr>"
    by (simp add: passesCallShape_def plainCallee_def)
  have d: "kind argument \<noteq> Identifier \<longrightarrow>
        \<not> passesCallShape \<lparr>expression = elementAccess receiver argument, arguments = args\<rparr>"
    by (simp add: passesCallShape_def elementAccess_def)
  have e: "memberAccessCall \<lparr>expression = propertyAccess receiver name', arguments = args\<rparr>
        (identifierNode receiver 0) name'"
    by (simp add: memberAccessCall_def propertyAccess_def identifierNode_def tokenNode_def)
  have f: "memberAccessCall
        \<lparr>expression = optionalPropertyAccess receiver name', arguments = args\<rparr>
        (identifierNode receiver 0) name'"
    by (simp add: memberAccessCall_def optionalPropertyAccess_def identifierNode_def
        tokenNode_def)
  from a b c d e f show ?thesis by blast
qed

theorem call_shape_gate_witness:
  "\<not> passesCallShape \<lparr>expression = plainCallee, arguments = [OtherExpression]\<rparr>
   \<and> processCallExpression exampleModels noSymbolChecker
        \<lparr>expression = plainCallee, arguments = [OtherExpression]\<rparr> [] = []
   \<and> kind (tokenNode StringLiteral ''\"destroy\"'' 5) \<noteq> Identifier
   \<and> \<not> passesCallShape
         \<lparr>expression = elementAccess ''User'' (tokenNode StringLiteral ''\"destroy\"'' 5),
          arguments = []\<rparr>
   \<and> memberAccessCall upsertCall (identifierNode ''User'' 0) ''upsert''
   \<and> isSequelizeModelWriteMethod ''upsert''
   \<and> passesCallShape upsertCall
   \<and> memberAccessCall findAllCall (identifierNode ''User'' 0) ''findAll''
   \<and> \<not> isSequelizeModelWriteMethod ''findAll''
   \<and> processCallExpression exampleModels noSymbolChecker findAllCall [] = []"
proof -
  have h1: "memberAccessCall upsertCall (identifierNode ''User'' 0) ''upsert''"
    by (simp add: memberAccessCall_def upsertCall_def propertyAccess_def identifierNode_def
        tokenNode_def)
  have h2: "isSequelizeModelWriteMethod ''upsert''"
    by (simp add: isWriteMethod_iff directVocabulary_def)
  have h3: "kind (tokenNode StringLiteral ''\"destroy\"'' 5) \<noteq> Identifier"
    by (simp add: tokenNode_def)
  have h4: "memberAccessCall findAllCall (identifierNode ''User'' 0) ''findAll''"
    by (simp add: memberAccessCall_def findAllCall_def propertyAccess_def identifierNode_def
        tokenNode_def)
  have h5: "\<not> isSequelizeModelWriteMethod ''findAll''"
    by (simp add: isWriteMethod_iff directVocabulary_def isMixin_simps)
  from call_shape_gate[where node = "\<lparr>expression = plainCallee, arguments = [OtherExpression]\<rparr>"
      and availableModels = exampleModels and checker = noSymbolChecker and foundModels = "[]"
      and args = "[OtherExpression]"]
    call_shape_gate[where node = upsertCall and firstNode = "identifierNode ''User'' 0"
      and methodName = "''upsert''"]
    call_shape_gate[where node = findAllCall and firstNode = "identifierNode ''User'' 0"
      and methodName = "''findAll''" and availableModels = exampleModels
      and checker = noSymbolChecker and foundModels = "[]"]
    call_shape_gate[where args = "[]" and argument = "tokenNode StringLiteral ''\"destroy\"'' 5"
      and receiver = "''User''"]
    h1 h2 h3 h4 h5
  show ?thesis by simp
qed

text \<open>
  C8. A call \<^verbatim>\<open>entity.destroy()\<close> whose receiver is an identifier with a text that names
  no registered entity, and whose static type has a symbol named like the registered
  entity \<open>E\<close> (registered under its own name), resolves to \<open>E\<close> and leaves the record of
  \<open>E\<close> with its delete flag set.
\<close>

theorem type_based_resolution:
  assumes "classifiedCall node firstNode ''destroy''"
    and "kind firstNode = Identifier"
    and "map_of availableModels (getText firstNode) = None"
    and "getSymbol (checker firstNode) = Some symbol"
    and "map_of availableModels (getName symbol) = Some entity"
    and "name entity = getName symbol"
  shows "findModelFromNode availableModels checker firstNode = Some entity
    \<and> (\<exists>r. map_of (processCallExpression availableModels checker node foundModels)
              (getName symbol) = Some r \<and> isDelete r)"
proof -
  have r: "findModelFromNode availableModels checker firstNode = Some entity"
    using assms(2-5) by (simp add: findModelFromNode_def Let_def)
  have w: "isSequelizeModelWriteMethod ''destroy''"
    by (simp add: isWriteMethod_iff directVocabulary_def)
  have v: "''destroy'' \<in> set directVocabulary" by (simp add: directVocabulary_def)
  have nm: "\<not> isSequelizeTypescriptGeneratedWriteMethod ''destroy''"
    by (simp add: isMixin_simps)
  have "processCallExpression availableModels checker node foundModels =
      processModelWriteMethod entity ''destroy'' foundModels"
    by (simp add: processCallExpression_classified[OF assms(1) w] r
        processModelTypescriptMixins_direct[OF nm])
  then have "map_of (processCallExpression availableModels checker node foundModels)
      (getName symbol) =
      Some (withOperations (classifierTable ''destroy'')
             (case map_of foundModels (getName symbol) of
                None \<Rightarrow> freshRecord entity | Some r \<Rightarrow> r))"
    by (simp add: map_of_processModelWriteMethod[OF v] assms(6))
  moreover have "isDelete (withOperations (classifierTable ''destroy'') x)" for x
    by (simp add: withOperations_def classifierTable_def)
  ultimately show ?thesis using r by simp
qed

theorem type_based_resolution_witness:
  "classifiedCall \<lparr>expression = propertyAccess ''user'' ''destroy'', arguments = []\<rparr>
      (identifierNode ''user'' 0) ''destroy''
   \<and> map_of exampleModels ''user'' = None
   \<and> getSymbol (typedVariables [(''user'', ''User'')] (identifierNode ''user'' 0)) =
       Some \<lparr>getName = ''User'', getDeclarations = None\<rparr>
   \<and> map_of exampleModels ''User'' = Some userModel
   \<and> (\<exists>r. map_of (processCallExpression exampleModels (typedVariables [(''user'', ''User'')])
                   \<lparr>expression = propertyAccess ''user'' ''destroy'', arguments = []\<rparr> [])
               ''User'' = Some r \<and> isDelete r)"
proof -
  have h1: "classifiedCall \<lparr>expression = propertyAccess ''user'' ''destroy'', arguments = []\<rparr>
      (identifierNode ''user'' 0) ''destroy''"
    by (simp add: classifiedCall_def propertyAccess_def identifierNode_def)
  have h2: "kind (identifierNode ''user'' 0) = Identifier" by (simp add: identifierNode_def)
  have h3: "map_of exampleModels (getText (identifierNode ''user'' 0)) = None"
    by (simp add: exampleModels_def identifierNode_def)
  have h4: "getSymbol (typedVariables [(''user'', ''User'')] (identifierNode ''user'' 0)) =
       Some \<lparr>getName = ''User'', getDeclarations = None\<rparr>"
    by (simp add: typedVariables_def identifierNode_def)
  have h5: "map_of exampleModels (getName \<lparr>getName = ''User'', getDeclarations = None\<rparr>) =
      Some userModel"
    by (simp add: exampleModels_def)
  have h6: "name userModel = getName \<lparr>getName = ''User'', getDeclarations = None\<rparr>"
    by (simp add: userModel_def)
  from type_based_resolution[where checker = "typedVariables [(''user'', ''User'')]"
      and firstNode = "identifierNode ''user'' 0" and availableModels = exampleModels
      and symbol = "\<lparr>getName = ''User'', getDeclarations = None\<rparr>"
      and foundModels = "[]", OF h1 h2 h3 h4 h5 h6] h1 h3 h4 h5
  show ?thesis by (simp add: identifierNode_def)
qed

text \<open>
  C9. For a call \<^verbatim>\<open>user.$add("roles", role)\<close> whose receiver resolves to the entity
  \<open>user\<close>, with an association of that name whose target is registered and whose join
  entity resolves to \<open>userRole\<close>, both different from \<open>user\<close>: the join entity's record
  has its insert flag set after the call, and the lookup of the source entity's own record
  gives what it gave before (the same record, or none).
\<close>

theorem add_frame:
  assumes "classifiedCall node firstNode ''$add''"
    and "findModelFromNode availableModels checker firstNode = Some user"
    and "2 \<le> length (arguments node)"
    and "arguments node ! 0 = StringLiteralExpression text"
    and "map_of (associations user) text = Some association"
    and "map_of availableModels (name (target association)) = Some role"
    and "findThroughModel availableModels association = Some userRole"
    and "name (target association) \<noteq> name user"
    and "name userRole \<noteq> name user"
  shows "readFlag isInsert (name userRole)
           (processCallExpression availableModels checker node foundModels)
    \<and> map_of (processCallExpression availableModels checker node foundModels) (name user) =
        map_of foundModels (name user)"
proof -
  have m: "isSequelizeTypescriptGeneratedWriteMethod ''$add''" by (simp add: isMixin_simps)
  then have w: "isSequelizeModelWriteMethod ''$add''" by (simp add: isWriteMethod_iff)
  have p: "processCallExpression availableModels checker node foundModels =
      mixinSwitch ''$add'' (name (target association)) (Some (name userRole))
        (getOrCreateModelOperations userRole
           (getOrCreateModelOperations (target association) foundModels))"
    by (simp add: processCallExpression_classified[OF assms(1) w] assms(2)
        processModelWriteMethod_mixin[OF m]
        processModelTypescriptMixins_effect[OF m assms(3-6)] assms(7))
  have e: "snd (effectTable ''$add'' True) = {INSERT}" "fst (effectTable ''$add'' True) = {}"
    by (simp_all add: effectTable_def)
  have i: "isInsert (withOperations {INSERT} x)" for x
    by (simp add: withOperations_def)
  have a: "readFlag isInsert (name userRole)
           (processCallExpression availableModels checker node foundModels)"
    by (cases "map_of foundModels (name userRole)")
      (simp_all add: p readFlag_def map_of_mixinSwitch[OF m] map_of_getOrCreate e i)
  have b: "map_of (processCallExpression availableModels checker node foundModels) (name user) =
        map_of foundModels (name user)"
    using assms(8,9)
    by (simp add: p map_of_mixinSwitch[OF m] map_of_getOrCreate
        map_option_withOperations_empty)
  from a b show ?thesis by simp
qed

theorem add_frame_witness:
  "classifiedCall \<lparr>expression = propertyAccess ''user'' ''$add'', arguments = twoArguments ''roles''\<rparr>
      (identifierNode ''user'' 0) ''$add''
   \<and> findModelFromNode exampleModels (typedVariables [(''user'', ''User'')])
        (identifierNode ''user'' 0) = Some userModel
   \<and> findThroughModel exampleModels rolesAssociation = Some userRoleModel
   \<and> readFlag isInsert ''UserRole''
        (processCallExpression exampleModels (typedVariables [(''user'', ''User'')])
           \<lparr>expression = propertyAccess ''user'' ''$add'', arguments = twoArguments ''roles''\<rparr>
           [(''User'', freshRecord userModel)])
   \<and> map_of (processCallExpression exampleModels (typedVariables [(''user'', ''User'')])
           \<lparr>expression = propertyAccess ''user'' ''$add'', arguments = twoArguments ''roles''\<rparr>
           [(''User'', freshRecord userModel)]) ''User'' = Some (freshRecord userModel)"
proof -
  have h1: "classifiedCall
      \<lparr>expression = propertyAccess ''user'' ''$add'', arguments = twoArguments ''roles''\<rparr>
      (identifierNode ''user'' 0) ''$add''"
    by (simp add: classifiedCall_def propertyAccess_def identifierNode_def)
  have h2: "findModelFromNode exampleModels (typedVariables [(''user'', ''User'')])
        (identifierNode ''user'' 0) = Some userModel"
    by (simp add: findModelFromNode_def exampleModels_def typedVariables_def identifierNode_def)
  have h3: "2 \<le> length (arguments
      \<lparr>expression = propertyAccess ''user'' ''$add'', arguments = twoArguments ''roles''\<rparr>)"
    by (simp add: twoArguments_def)
  have h4: "arguments
      \<lparr>expression = propertyAccess ''user'' ''$add'', arguments = twoArguments ''roles''\<rparr> ! 0 =
      StringLiteralExpression ''roles''"
    by (simp add: twoArguments_def)
  have h5: "map_of (associations userModel) ''roles'' = Some rolesAssociation"
    by (simp add: userModel_def rolesAssociation_def)
  have h6: "map_of exampleModels (name (target rolesAssociation)) = Some roleModel"
    by (simp add: exampleModels_def rolesAssociation_def)
  have h7: "findThroughModel exampleModels rolesAssociation = Some userRoleModel"
    by (simp add: findThroughModel_def rolesAssociation_def exampleModels_def)
  have h8: "name (target rolesAssociation) \<noteq> name userModel"
    by (simp add: rolesAssociation_def userModel_def)
  have h9: "name userRoleModel \<noteq> name userModel"
    by (simp add: userRoleModel_def userModel_def)
  have n: "name userRoleModel = ''UserRole''" "name userModel = ''User''"
    by (simp_all add: userRoleModel_def userModel_def)
  from add_frame[OF h1 h2 h3 h4 h5 h6 h7 h8 h9, of "[(''User'', freshRecord userModel)]"]
    h1 h2 h7
  show ?thesis by (simp add: n)
qed

subsection \<open>Errors\<close>

text \<open>
  C5. The run throws only when the compiler configuration is not found; every other
  failure, the completion pass included, is reported and the run completes. The code does
  throw in the completion pass: with a registry in which the join entity \<^verbatim>\<open>UserRole\<close> of
  the association \<^verbatim>\<open>roles\<close> of \<^verbatim>\<open>User\<close> is missing, and a program that imports
  \<^verbatim>\<open>User\<close> and \<^verbatim>\<open>Role\<close> and calls \<^verbatim>\<open>Role.create(x)\<close>, the pass assigns a flag through the
  \<^verbatim>\<open>undefined\<close> that \<^verbatim>\<open>getThroughModelOperations\<close> returns, and the run ends in a
  \<^verbatim>\<open>TypeError\<close>. The association mixin handler tests the same result before it assigns.
\<close>

theorem completion_pass_throws:
  "getModelsFromSourceFiles None partialModels defaultOptions = Inl ConfigNotFound
   \<and> fold (visitSourceFile defaultOptions partialModels (getTypeChecker roleCreateProgram))
        (getSourceFiles roleCreateProgram) [] =
       [(''User'', \<lparr>table = ''users'', isSelect = True, isInsert = False, isUpdate = False,
                    isDelete = False\<rparr>),
        (''Role'', \<lparr>table = ''roles'', isSelect = True, isInsert = True, isUpdate = False,
                    isDelete = False\<rparr>)]
   \<and> findThroughModel partialModels rolesAssociation = None
   \<and> getModelsFromSourceFiles (Some roleCreateProgram) partialModels defaultOptions =
       Inl TypeError"
  by (simp add: getModelsFromSourceFiles_def loadProjectConfig_def visitAllSourceFiles_def
      roleCreateProgram_def visitSourceFile_def defaultOptions_def partialModels_def
      processImportDeclarationNode_def processImportSpecifier_def userModel_def roleModel_def
      getSequelizeModelTableName_def processCallExpression_def propertyAccess_def
      identifierNode_def tokenNode_def isSequelizeModelWriteMethod_def
      SequelizeDefaultWriteMethodsRecord_def isMixin_simps findModelFromNode_def
      processModelWriteMethod_def processModelTypescriptMixins_def
      getOrCreateModelOperations_def setInsert_def addHiddenManyToManyModels_def
      addHiddenModel_def addHiddenAssociation_def getThroughModelOperations_def
      findThroughModel_def rolesAssociation_def propagateFlag_def readFlag_def)

subsection \<open>The invariant of the store\<close>

lemma recordLe_refl: "recordLe r r"
  by (simp add: recordLe_def)

lemma recordLe_trans: "recordLe a b \<Longrightarrow> recordLe b c \<Longrightarrow> recordLe a c"
  by (simp add: recordLe_def)

lemma storeLe_refl: "storeLe s s"
  by (simp add: storeLe_def recordLe_refl)

lemma storeLe_trans:
  assumes "storeLe a b" and "storeLe b c"
  shows "storeLe a c"
proof -
  from assms obtain n1 n2 where "map fst b = map fst a @ n1" "map fst c = map fst b @ n2"
    by (auto simp: storeLe_def)
  then have k: "\<exists>new. map fst c = map fst a @ new" by simp
  have "\<exists>r'. map_of c k = Some r' \<and> recordLe r r'" if "map_of a k = Some r" for k r
  proof -
    from assms(1) that obtain r1 where r1: "map_of b k = Some r1" "recordLe r r1"
      by (auto simp: storeLe_def)
    from assms(2) r1(1) obtain r2 where "map_of c k = Some r2" "recordLe r1 r2"
      by (auto simp: storeLe_def)
    with r1(2) show ?thesis using recordLe_trans by blast
  qed
  with k show ?thesis by (simp add: storeLe_def)
qed

lemma preserved_refl: "preserved s s"
  by (simp add: preserved_def storeLe_refl)

lemma preserved_trans: "preserved a b \<Longrightarrow> preserved b c \<Longrightarrow> preserved a c"
  using storeLe_trans by (auto simp: preserved_def)

lemma selectInvariant_map_entry:
  assumes "\<And>r. isSelect r \<Longrightarrow> isSelect (f r)"
  shows "selectInvariant s \<Longrightarrow> selectInvariant (AList.map_entry k f s)"
  using assms by (induction s) (auto simp: selectInvariant_def)

lemma storeLe_map_entry:
  assumes "\<And>r. recordLe r (f r)"
  shows "storeLe s (AList.map_entry k f s)"
  using assms by (auto simp: storeLe_def keys_map_entry map_of_map_entry recordLe_refl)

lemma preserved_setInsert: "preserved s (setInsert k s)"
  by (simp add: preserved_def setInsert_def selectInvariant_map_entry storeLe_map_entry
      recordLe_def)

lemma preserved_setUpdate: "preserved s (setUpdate k s)"
  by (simp add: preserved_def setUpdate_def selectInvariant_map_entry storeLe_map_entry
      recordLe_def)

lemma preserved_setDelete: "preserved s (setDelete k s)"
  by (simp add: preserved_def setDelete_def selectInvariant_map_entry storeLe_map_entry
      recordLe_def)

lemma preserved_append_fresh:
  assumes "map_of s k = None" and "isSelect r"
  shows "preserved s (s @ [(k, r)])"
  using assms
  by (auto simp: preserved_def selectInvariant_def storeLe_def recordLe_refl map_add_def
      split: option.splits)

lemma preserved_getOrCreate: "preserved s (getOrCreateModelOperations model s)"
  by (auto simp: getOrCreateModelOperations_def preserved_refl
      intro!: preserved_append_fresh split: option.splits)

lemma preserved_fold:
  assumes "\<And>x s. x \<in> set xs \<Longrightarrow> preserved s (f x s)"
  shows "preserved s (fold f xs s)"
  using assms
proof (induction xs arbitrary: s)
  case Nil
  show ?case by (simp add: preserved_refl)
next
  case (Cons x xs)
  have "preserved s (f x s)" using Cons.prems by simp
  moreover have "preserved (f x s) (fold f xs (f x s))"
    using Cons.IH Cons.prems by simp
  ultimately show ?case using preserved_trans by fastforce
qed

lemma preserved_forEach:
  assumes "\<And>x s s'. x \<in> set xs \<Longrightarrow> f x s = Inr s' \<Longrightarrow> preserved s s'"
    and "forEach f xs s = Inr s'"
  shows "preserved s s'"
  using assms
proof (induction xs arbitrary: s)
  case Nil
  then show ?case by (simp add: preserved_refl)
next
  case (Cons x xs)
  from Cons.prems(2) obtain s1 where s1: "f x s = Inr s1" "forEach f xs s1 = Inr s'"
    by (auto split: sum.splits)
  have "preserved s s1" by (rule Cons.prems(1)[OF _ s1(1)]) simp
  moreover have "preserved s1 s'"
    by (rule Cons.IH[OF _ s1(2)]) (rule Cons.prems(1), simp_all)
  ultimately show ?case using preserved_trans by blast
qed

lemma preserved_applyOperation: "preserved s (applyOperation k op s)"
  by (cases op) (simp_all add: preserved_setInsert preserved_setUpdate preserved_setDelete)

lemma preserved_processModelWriteMethod: "preserved s (processModelWriteMethod model method s)"
proof -
  have "preserved s (fold (applyOperation (name model)) ops (getOrCreateModelOperations model s))"
    for ops
  proof -
    have "preserved (getOrCreateModelOperations model s)
        (fold (applyOperation (name model)) ops (getOrCreateModelOperations model s))"
      by (rule preserved_fold) (rule preserved_applyOperation)
    with preserved_getOrCreate show ?thesis by (rule preserved_trans)
  qed
  then show ?thesis
    by (simp add: processModelWriteMethod_def preserved_refl split: option.splits)
qed

lemma preserved_mixinSwitch: "preserved s (mixinSwitch method tk jk s)"
proof -
  note p = preserved_setInsert preserved_setUpdate preserved_setDelete
  have 3: "preserved s (setDelete t (setUpdate t (setInsert t s)))" for t
    using preserved_trans[OF preserved_trans[OF p(1) p(2)] p(3)] .
  have 2: "preserved s (setInsert t (setInsert tk s))" for t
    using preserved_trans[OF p(1) p(1)] .
  show ?thesis
    by (simp add: mixinSwitch_def Let_def p 2 3 preserved_refl split: option.splits)
qed

lemma preserved_getThrough:
  "getThroughModelOperations am a s = (jk, s') \<Longrightarrow> preserved s s'"
  by (auto simp: getThroughModelOperations_def preserved_refl preserved_getOrCreate
      split: option.splits)

lemma preserved_processModelTypescriptMixins:
  "preserved s (processModelTypescriptMixins am sourceModel method args s)"
proof -
  have "preserved s (mixinSwitch method tk jk s2)"
    if "getThroughModelOperations am a (getOrCreateModelOperations (target a) s) = (jk, s2)"
    for a jk s2 tk
    using preserved_trans[OF preserved_trans[OF preserved_getOrCreate preserved_getThrough[OF that]]
        preserved_mixinSwitch] .
  then show ?thesis
    by (auto simp: processModelTypescriptMixins_def preserved_refl
        split: option.splits ArgumentExpression.splits prod.splits)
qed

lemma preserved_processCallExpression:
  "preserved s (processCallExpression am checker node s)"
  using preserved_trans[OF preserved_processModelWriteMethod
      preserved_processModelTypescriptMixins]
  by (auto simp: processCallExpression_def Let_def preserved_refl split: option.splits)

lemma preserved_processImportSpecifier: "preserved s (processImportSpecifier am i s)"
  by (auto simp: processImportSpecifier_def preserved_refl
      intro!: preserved_append_fresh split: option.splits)

lemma preserved_processImportDeclarationNode:
  "preserved s (processImportDeclarationNode options am node s)"
  by (simp add: processImportDeclarationNode_def preserved_refl preserved_fold
      preserved_processImportSpecifier)

lemma preserved_nodeVisitor: "preserved s (nodeVisitor options am checker node s)"
proof (induction options am checker node s rule: nodeVisitor.induct)
  case (1 options am checker node s)
  show ?case by (simp add: preserved_processImportDeclarationNode)
next
  case (2 options am checker node children s)
  have "preserved (processCallExpression am checker node s)
      (fold (nodeVisitor options am checker) children (processCallExpression am checker node s))"
    by (rule preserved_fold) (simp add: 2)
  then show ?case
    using preserved_trans[OF preserved_processCallExpression] by simp
next
  case (3 options am checker children s)
  have "preserved s (fold (nodeVisitor options am checker) children s)"
    by (rule preserved_fold) (simp add: 3)
  then show ?case by simp
qed

lemma preserved_propagateFlag:
  assumes "\<And>t s. preserved s (setFlag t s)"
    and "propagateFlag flag setFlag tk jk s = Inr s'"
  shows "preserved s s'"
  using assms
  by (auto simp: propagateFlag_def preserved_refl split: if_splits option.splits)

lemma preserved_addHiddenAssociation:
  assumes "addHiddenAssociation am a s = Inr s'"
  shows "preserved s s'"
proof (cases "associationType a = BelongsToMany \<and> map_of s (name (target a)) \<noteq> None")
  case False
  with assms show ?thesis
    by (auto simp: addHiddenAssociation_def preserved_refl split: if_splits option.splits)
next
  case True
  obtain jk s1 where g: "getThroughModelOperations am a s = (jk, s1)"
    by (cases "getThroughModelOperations am a s")
  from assms True g obtain s2 s3 where
    p: "propagateFlag isInsert setInsert (name (target a)) jk s1 = Inr s2"
       "propagateFlag isUpdate setUpdate (name (target a)) jk s2 = Inr s3"
       "propagateFlag isDelete setDelete (name (target a)) jk s3 = Inr s'"
    by (auto simp: addHiddenAssociation_def split: sum.splits)
  have "preserved s s1" using g by (rule preserved_getThrough)
  moreover have "preserved s1 s2"
    using preserved_setInsert p(1) by (rule preserved_propagateFlag)
  moreover have "preserved s2 s3"
    using preserved_setUpdate p(2) by (rule preserved_propagateFlag)
  moreover have "preserved s3 s'"
    using preserved_setDelete p(3) by (rule preserved_propagateFlag)
  ultimately show ?thesis using preserved_trans by blast
qed

lemma preserved_addHiddenModel:
  assumes "addHiddenModel am k s = Inr s'"
  shows "preserved s s'"
  using assms preserved_forEach[of _ "addHiddenAssociation am"] preserved_addHiddenAssociation
  by (fastforce simp: addHiddenModel_def split: option.splits)

lemma preserved_addHiddenManyToManyModels:
  assumes "addHiddenManyToManyModels am s = Inr s'"
  shows "preserved s s'"
  using assms preserved_forEach[of _ "addHiddenModel am"] preserved_addHiddenModel
  unfolding addHiddenManyToManyModels_def by blast

lemma preserved_visitSourceFile: "preserved s (visitSourceFile options am checker sf s)"
  by (simp add: visitSourceFile_def preserved_refl preserved_nodeVisitor)

text \<open>
  C4. The empty store satisfies the invariant, and every operation of the analysis
  preserves it: import processing, the direct write classification, the mixin handler, a
  whole call, the visitor on a whole tree, and the completion pass when it returns. After
  each of them every record has its select flag set if that held before, no key is gone,
  no table has changed and no flag that was set is cleared. A run that returns a store
  returns one in which every record has its select flag set.
\<close>

theorem analysis_invariant:
  "selectInvariant []
   \<and> preserved foundModels
        (processImportDeclarationNode options availableModels importNode foundModels)
   \<and> preserved foundModels (processModelWriteMethod model methodName foundModels)
   \<and> preserved foundModels
        (processModelTypescriptMixins availableModels sourceModel methodName args foundModels)
   \<and> preserved foundModels (processCallExpression availableModels checker callNode foundModels)
   \<and> preserved foundModels (nodeVisitor options availableModels checker node foundModels)
   \<and> (addHiddenManyToManyModels availableModels foundModels = Inr foundModels'
        \<longrightarrow> preserved foundModels foundModels')
   \<and> (getModelsFromSourceFiles configured availableModels options = Inr result
        \<longrightarrow> selectInvariant result)"
proof -
  have e: "selectInvariant []" by (simp add: selectInvariant_def)
  have r: "selectInvariant result"
    if "getModelsFromSourceFiles configured availableModels options = Inr result"
  proof -
    from that obtain program where
      v: "visitAllSourceFiles options availableModels program = Inr result"
      by (auto simp: getModelsFromSourceFiles_def loadProjectConfig_def split: option.splits)
    let ?t = "fold (visitSourceFile options availableModels (getTypeChecker program))
          (getSourceFiles program) []"
    have "preserved [] ?t" by (rule preserved_fold) (rule preserved_visitSourceFile)
    moreover have "preserved ?t result"
      using v by (simp add: visitAllSourceFiles_def preserved_addHiddenManyToManyModels)
    ultimately show ?thesis using e by (simp add: preserved_def)
  qed
  show ?thesis
    using r
    by (auto simp: e preserved_processImportDeclarationNode preserved_processModelWriteMethod
        preserved_processModelTypescriptMixins preserved_processCallExpression
        preserved_nodeVisitor intro: preserved_addHiddenManyToManyModels)
qed

lemma example_traversal:
  "fold (visitSourceFile defaultOptions exampleModels (getTypeChecker roleCreateProgram))
     (getSourceFiles roleCreateProgram) [] = traversedStore"
  by (simp add: roleCreateProgram_def visitSourceFile_def defaultOptions_def exampleModels_def
      processImportDeclarationNode_def processImportSpecifier_def userModel_def roleModel_def
      getSequelizeModelTableName_def processCallExpression_def propertyAccess_def
      identifierNode_def tokenNode_def isSequelizeModelWriteMethod_def
      SequelizeDefaultWriteMethodsRecord_def isMixin_simps findModelFromNode_def
      processModelWriteMethod_def processModelTypescriptMixins_def
      getOrCreateModelOperations_def setInsert_def traversedStore_def)

lemma example_completion:
  "addHiddenManyToManyModels exampleModels traversedStore = Inr completedStore"
  by (simp add: traversedStore_def completedStore_def exampleModels_def userModel_def
      roleModel_def userRoleModel_def getSequelizeModelTableName_def
      getOrCreateModelOperations_def setInsert_def addHiddenManyToManyModels_def
      addHiddenModel_def addHiddenAssociation_def getThroughModelOperations_def
      findThroughModel_def propagateFlag_def readFlag_def)

lemma example_run:
  "getModelsFromSourceFiles (Some roleCreateProgram) exampleModels defaultOptions =
     Inr completedStore"
  by (simp add: getModelsFromSourceFiles_def loadProjectConfig_def visitAllSourceFiles_def
      example_traversal example_completion)

theorem analysis_invariant_witness:
  "selectInvariant traversedStore
   \<and> addHiddenManyToManyModels exampleModels traversedStore = Inr completedStore
   \<and> preserved traversedStore completedStore
   \<and> getModelsFromSourceFiles (Some roleCreateProgram) exampleModels defaultOptions =
       Inr completedStore
   \<and> selectInvariant completedStore"
proof -
  have h: "selectInvariant traversedStore"
    by (simp add: selectInvariant_def traversedStore_def)
  from analysis_invariant[where foundModels = traversedStore and foundModels' = completedStore
      and availableModels = exampleModels and configured = "Some roleCreateProgram"
      and options = defaultOptions and result = completedStore
      and importNode = "\<lparr>moduleSpecifier = None, namedImports = []\<rparr>"
      and model = userModel and methodName = "''create''" and sourceModel = userModel
      and args = "[]" and checker = noSymbolChecker and callNode = upsertCall
      and node = "OtherNode []"]
    h example_completion example_run
  show ?thesis by simp
qed

subsection \<open>The completion pass\<close>

lemma findThroughModel_BelongsToMany:
  "findThroughModel am a = Some tm \<Longrightarrow> associationType a = BelongsToMany"
  by (simp add: findThroughModel_def split: if_splits)

lemma propagateFlag_Some:
  "propagateFlag flag setFlag tk (Some j) s = Inr (if readFlag flag tk s then setFlag j s else s)"
  by (simp add: propagateFlag_def)

lemma addHiddenAssociation_resolved:
  assumes "findThroughModel am a = Some tm"
    and "map_of s (name (target a)) = Some t"
  shows "\<exists>s'. addHiddenAssociation am a s = Inr s'
    \<and> (\<forall>k. map_of s' k =
          (if k = name tm
           then Some (inheritFlags t
                  (case map_of s k of None \<Rightarrow> freshRecord tm | Some r \<Rightarrow> r))
           else map_of s k))
    \<and> map fst s' =
        (if map_of s (name tm) = None then map fst s @ [name tm] else map fst s)"
proof -
  let ?tn = "name (target a)"
  define j where "j = name tm"
  define s1 where "s1 = getOrCreateModelOperations tm s"
  define s2 where "s2 = (if isInsert t then setInsert j s1 else s1)"
  define s3 where "s3 = (if isUpdate t then setUpdate j s2 else s2)"
  define s4 where "s4 = (if isDelete t then setDelete j s3 else s3)"
  have t0: "map_of s ?tn = Some t" using assms(2) by simp
  have m1: "map_of s1 k =
      (if k = j then Some (case map_of s k of None \<Rightarrow> freshRecord tm | Some r \<Rightarrow> r)
       else map_of s k)" for k
    by (simp add: s1_def j_def map_of_getOrCreate split: option.splits)
  have m2: "map_of s2 k =
      (if k = j then Some ((case map_of s k of None \<Rightarrow> freshRecord tm | Some r \<Rightarrow> r)
                            \<lparr>isInsert := isInsert (case map_of s k of
                                 None \<Rightarrow> freshRecord tm | Some r \<Rightarrow> r) \<or> isInsert t\<rparr>)
       else map_of s k)" for k
    by (simp add: s2_def map_of_setInsert m1)
  have m3: "map_of s3 k =
      (if k = j then Some ((case map_of s k of None \<Rightarrow> freshRecord tm | Some r \<Rightarrow> r)
                            \<lparr>isInsert := isInsert (case map_of s k of
                                 None \<Rightarrow> freshRecord tm | Some r \<Rightarrow> r) \<or> isInsert t,
                              isUpdate := isUpdate (case map_of s k of
                                 None \<Rightarrow> freshRecord tm | Some r \<Rightarrow> r) \<or> isUpdate t\<rparr>)
       else map_of s k)" for k
    by (simp add: s3_def map_of_setUpdate m2)
  have m4: "map_of s4 k =
      (if k = j then Some (inheritFlags t
                     (case map_of s k of None \<Rightarrow> freshRecord tm | Some r \<Rightarrow> r))
       else map_of s k)" for k
    by (simp add: s4_def map_of_setDelete m3 inheritFlags_def)
  have f1: "readFlag isInsert ?tn s1 = isInsert t"
    using t0 by (auto simp: readFlag_def m1)
  have f2: "readFlag isUpdate ?tn s2 = isUpdate t"
    using t0 by (auto simp: readFlag_def m2)
  have f3: "readFlag isDelete ?tn s3 = isDelete t"
    using t0 by (auto simp: readFlag_def m3)
  have g: "getThroughModelOperations am a s = (Some j, s1)"
    by (simp add: getThroughModelOperations_def assms(1) j_def s1_def)
  have p1: "propagateFlag isInsert setInsert ?tn (Some j) s1 = Inr s2"
    by (simp add: propagateFlag_Some f1 s2_def)
  have p2: "propagateFlag isUpdate setUpdate ?tn (Some j) s2 = Inr s3"
    by (simp add: propagateFlag_Some f2 s3_def)
  have p3: "propagateFlag isDelete setDelete ?tn (Some j) s3 = Inr s4"
    by (simp add: propagateFlag_Some f3 s4_def)
  have r: "addHiddenAssociation am a s = Inr s4"
    using findThroughModel_BelongsToMany[OF assms(1)]
    by (simp add: addHiddenAssociation_def t0 g p1 p2 p3)
  have k: "map fst s4 = (if map_of s j = None then map fst s @ [j] else map fst s)"
    by (simp add: s4_def s3_def s2_def s1_def keys_setFlag keys_getOrCreate j_def)
  from r m4 k show ?thesis by (simp add: j_def)
qed

lemma forEach_append:
  "forEach f (xs @ ys) s =
     (case forEach f xs s of Inl e \<Rightarrow> Inl e | Inr s1 \<Rightarrow> forEach f ys s1)"
  by (induction xs arbitrary: s) (simp_all split: sum.splits)

lemma forEach_member:
  assumes "forEach f xs s = Inr s'" and "x \<in> set xs"
  shows "\<exists>pre post s1 s2. xs = pre @ x # post \<and> forEach f pre s = Inr s1
      \<and> f x s1 = Inr s2 \<and> forEach f post s2 = Inr s'"
proof -
  from assms(2) obtain pre post where xs: "xs = pre @ x # post" by (auto dest: split_list)
  with assms(1) show ?thesis
    by (auto simp: forEach_append split: sum.splits)
qed

lemma preserved_forEach_addHiddenAssociation:
  "forEach (addHiddenAssociation am) as s = Inr s' \<Longrightarrow> preserved s s'"
  using preserved_forEach[of as "addHiddenAssociation am"] preserved_addHiddenAssociation
  by blast

lemma preserved_forEach_addHiddenModel:
  "forEach (addHiddenModel am) ks s = Inr s' \<Longrightarrow> preserved s s'"
  using preserved_forEach[of ks "addHiddenModel am"] preserved_addHiddenModel
  by blast

lemma preserved_lookup:
  assumes "preserved s s'" and "map_of s k = Some r"
  shows "\<exists>r'. map_of s' k = Some r' \<and> recordLe r r'"
  using assms by (simp add: preserved_def storeLe_def)

lemma completion_reaches_association:
  assumes "addHiddenManyToManyModels am fm = Inr completed"
    and "entity \<in> set (map fst fm)"
    and "map_of am entity = Some model"
    and "a \<in> set (map snd (associations model))"
  shows "\<exists>before after. preserved fm before \<and> addHiddenAssociation am a before = Inr after
      \<and> preserved after completed"
proof -
  from forEach_member[OF assms(1)[unfolded addHiddenManyToManyModels_def] assms(2)]
  obtain pre post s1 s2 where
    o: "forEach (addHiddenModel am) pre fm = Inr s1" "addHiddenModel am entity s1 = Inr s2"
      "forEach (addHiddenModel am) post s2 = Inr completed"
    by blast
  from o(2) assms(3) have
    i: "forEach (addHiddenAssociation am) (map snd (associations model)) s1 = Inr s2"
    by (simp add: addHiddenModel_def)
  from forEach_member[OF i assms(4)]
  obtain pre' post' s1a s1b where
    p: "forEach (addHiddenAssociation am) pre' s1 = Inr s1a"
      "addHiddenAssociation am a s1a = Inr s1b"
      "forEach (addHiddenAssociation am) post' s1b = Inr s2"
    by blast
  have "preserved fm s1a"
    using preserved_trans[OF preserved_forEach_addHiddenModel[OF o(1)]
        preserved_forEach_addHiddenAssociation[OF p(1)]] .
  moreover have "preserved s1b completed"
    using preserved_trans[OF preserved_forEach_addHiddenAssociation[OF p(3)]
        preserved_forEach_addHiddenModel[OF o(3)]] .
  ultimately show ?thesis using p(2) by blast
qed

text \<open>
  What the completion pass does for one association whose join entity resolves and whose
  target has a record: the loop body leaves the join entity's record (created with select
  set when missing) with insert, update and delete equal to its prior flags or the
  target's current flags, and every other record as it was. When the association belongs
  to an entity of the store and the pass returns, the join entity has a record in the
  result, with select set and with every flag that the target had before the pass.
\<close>

lemma join_record_when_pass_returns:
  assumes "findThroughModel availableModels association = Some throughModel"
    and "map_of foundModels (name (target association)) = Some targetOps"
  shows "(\<exists>s'. addHiddenAssociation availableModels association foundModels = Inr s'
       \<and> map_of s' (name throughModel) =
           Some (inheritFlags targetOps
                  (case map_of foundModels (name throughModel) of
                     None \<Rightarrow> freshRecord throughModel | Some r \<Rightarrow> r))
       \<and> (map_of foundModels (name throughModel) = None \<longrightarrow>
            map_of s' (name throughModel) =
              Some \<lparr>table = getSequelizeModelTableName throughModel, isSelect = True,
                    isInsert = isInsert targetOps, isUpdate = isUpdate targetOps,
                    isDelete = isDelete targetOps\<rparr>)
       \<and> (\<forall>k. k \<noteq> name throughModel \<longrightarrow> map_of s' k = map_of foundModels k))
    \<and> (entity \<in> set (map fst foundModels)
        \<and> map_of availableModels entity = Some model
        \<and> association \<in> set (map snd (associations model))
        \<and> selectInvariant foundModels
        \<and> addHiddenManyToManyModels availableModels foundModels = Inr completed
       \<longrightarrow> (\<exists>r. map_of completed (name throughModel) = Some r
              \<and> isSelect r
              \<and> (isInsert targetOps \<longrightarrow> isInsert r)
              \<and> (isUpdate targetOps \<longrightarrow> isUpdate r)
              \<and> (isDelete targetOps \<longrightarrow> isDelete r)))"
proof -
  from addHiddenAssociation_resolved[OF assms]
  obtain s' where s': "addHiddenAssociation availableModels association foundModels = Inr s'"
    "\<And>k. map_of s' k =
          (if k = name throughModel
           then Some (inheritFlags targetOps
                  (case map_of foundModels k of
                     None \<Rightarrow> freshRecord throughModel | Some r \<Rightarrow> r))
           else map_of foundModels k)"
    by blast
  have step: "\<exists>s'. addHiddenAssociation availableModels association foundModels = Inr s'
       \<and> map_of s' (name throughModel) =
           Some (inheritFlags targetOps
                  (case map_of foundModels (name throughModel) of
                     None \<Rightarrow> freshRecord throughModel | Some r \<Rightarrow> r))
       \<and> (map_of foundModels (name throughModel) = None \<longrightarrow>
            map_of s' (name throughModel) =
              Some \<lparr>table = getSequelizeModelTableName throughModel, isSelect = True,
                    isInsert = isInsert targetOps, isUpdate = isUpdate targetOps,
                    isDelete = isDelete targetOps\<rparr>)
       \<and> (\<forall>k. k \<noteq> name throughModel \<longrightarrow> map_of s' k = map_of foundModels k)"
    using s' by (auto simp: inheritFlags_def freshRecord_def)
  have pass: "\<exists>r. map_of completed (name throughModel) = Some r
              \<and> isSelect r
              \<and> (isInsert targetOps \<longrightarrow> isInsert r)
              \<and> (isUpdate targetOps \<longrightarrow> isUpdate r)
              \<and> (isDelete targetOps \<longrightarrow> isDelete r)"
    if h: "entity \<in> set (map fst foundModels)" "map_of availableModels entity = Some model"
      "association \<in> set (map snd (associations model))" "selectInvariant foundModels"
      "addHiddenManyToManyModels availableModels foundModels = Inr completed"
  proof -
    from completion_reaches_association[OF h(5) h(1) h(2) h(3)]
    obtain before after where
      b: "preserved foundModels before"
        "addHiddenAssociation availableModels association before = Inr after"
        "preserved after completed"
      by blast
    from preserved_lookup[OF b(1) assms(2)]
    obtain t' where t': "map_of before (name (target association)) = Some t'"
      "recordLe targetOps t'"
      by blast
    from addHiddenAssociation_resolved[OF assms(1) t'(1)] b(2)
    have "map_of after (name throughModel) =
        Some (inheritFlags t'
               (case map_of before (name throughModel) of
                  None \<Rightarrow> freshRecord throughModel | Some r \<Rightarrow> r))"
      by auto
    from preserved_lookup[OF b(3) this]
    obtain r where r: "map_of completed (name throughModel) = Some r"
      "recordLe (inheritFlags t'
               (case map_of before (name throughModel) of
                  None \<Rightarrow> freshRecord throughModel | Some r \<Rightarrow> r)) r"
      by blast
    have "selectInvariant completed"
      using preserved_addHiddenManyToManyModels[OF h(5)] h(4) by (simp add: preserved_def)
    then have "isSelect r" using r(1) by (rule selectInvariant_lookup)
    with r t'(2) show ?thesis
      by (auto simp: recordLe_def inheritFlags_def)
  qed
  from step pass show ?thesis by blast
qed

lemma join_record_when_pass_returns_example:
  "findThroughModel exampleModels rolesAssociation = Some userRoleModel
   \<and> map_of traversedStore ''UserRole'' = None
   \<and> ''User'' \<in> set (map fst traversedStore)
   \<and> map_of exampleModels ''User'' = Some userModel
   \<and> rolesAssociation \<in> set (map snd (associations userModel))
   \<and> selectInvariant traversedStore
   \<and> addHiddenManyToManyModels exampleModels traversedStore = Inr completedStore
   \<and> (\<exists>targetOps. map_of traversedStore ''Role'' = Some targetOps \<and> isInsert targetOps)
   \<and> (\<exists>r. map_of completedStore ''UserRole'' = Some r \<and> isSelect r \<and> isInsert r)"
proof -
  have h1: "findThroughModel exampleModels rolesAssociation = Some userRoleModel"
    by (simp add: findThroughModel_def rolesAssociation_def exampleModels_def)
  have h2: "map_of traversedStore (name (target rolesAssociation)) =
      Some \<lparr>table = ''roles'', isSelect = True, isInsert = True, isUpdate = False,
            isDelete = False\<rparr>"
    by (simp add: traversedStore_def rolesAssociation_def)
  have h3: "''User'' \<in> set (map fst traversedStore)" by (simp add: traversedStore_def)
  have h4: "map_of exampleModels ''User'' = Some userModel" by (simp add: exampleModels_def)
  have h5: "rolesAssociation \<in> set (map snd (associations userModel))"
    by (simp add: userModel_def rolesAssociation_def)
  have h6: "selectInvariant traversedStore"
    by (simp add: selectInvariant_def traversedStore_def)
  have h7: "map_of traversedStore ''UserRole'' = None" by (simp add: traversedStore_def)
  have n: "name userRoleModel = ''UserRole''" "name (target rolesAssociation) = ''Role''"
    by (simp_all add: userRoleModel_def rolesAssociation_def)
  from join_record_when_pass_returns[OF h1 h2, where entity = "''User''" and model = userModel
      and completed = completedStore]
    h1 h2 h3 h4 h5 h6 h7 example_completion
  show ?thesis by (simp add: n)
qed

text \<open>
  C2. For every entity of the store after traversal and every many-to-many association
  of it whose join entity resolves to a registered entity, if the join entity has no
  record and the target has one, the completion pass creates the join entity's record,
  with select set and the target's flags; with insert set on the target, the join record
  is in the result with insert set. The code does not do this when an earlier association
  has a join entity that does not resolve: \<^verbatim>\<open>User\<close> is in the store, its association
  \<^verbatim>\<open>roles\<close> resolves the join entity \<^verbatim>\<open>UserRole\<close>, which has no record, and the target
  \<^verbatim>\<open>Role\<close> has a record with insert set; the pass looks at \<^verbatim>\<open>archivedRoles\<close> first,
  assigns a flag through the \<^verbatim>\<open>undefined\<close> that \<^verbatim>\<open>getThroughModelOperations\<close> returns, and
  the run ends in a \<^verbatim>\<open>TypeError\<close> before the record of \<^verbatim>\<open>UserRole\<close> is created.
\<close>

theorem join_record_not_created:
  "fold (visitSourceFile defaultOptions archivingModels (getTypeChecker roleCreateProgram))
     (getSourceFiles roleCreateProgram) [] = traversedStore
   \<and> ''User'' \<in> set (map fst traversedStore)
   \<and> map_of archivingModels ''User'' = Some archivingUserModel
   \<and> map snd (associations archivingUserModel) = [archivedRolesAssociation, rolesAssociation]
   \<and> associationType rolesAssociation = BelongsToMany
   \<and> findThroughModel archivingModels rolesAssociation = Some userRoleModel
   \<and> map_of traversedStore (name userRoleModel) = None
   \<and> readFlag isInsert (name (target rolesAssociation)) traversedStore
   \<and> findThroughModel archivingModels archivedRolesAssociation = None
   \<and> addHiddenAssociation archivingModels archivedRolesAssociation traversedStore =
       Inl TypeError
   \<and> addHiddenManyToManyModels archivingModels traversedStore = Inl TypeError
   \<and> getModelsFromSourceFiles (Some roleCreateProgram) archivingModels defaultOptions =
       Inl TypeError"
  by (simp add: getModelsFromSourceFiles_def loadProjectConfig_def visitAllSourceFiles_def
      roleCreateProgram_def visitSourceFile_def defaultOptions_def archivingModels_def
      archivingUserModel_def archivedRolesAssociation_def rolesAssociation_def
      processImportDeclarationNode_def processImportSpecifier_def roleModel_def
      userRoleModel_def getSequelizeModelTableName_def processCallExpression_def
      propertyAccess_def identifierNode_def tokenNode_def isSequelizeModelWriteMethod_def
      SequelizeDefaultWriteMethodsRecord_def isMixin_simps findModelFromNode_def
      processModelWriteMethod_def processModelTypescriptMixins_def
      getOrCreateModelOperations_def setInsert_def addHiddenManyToManyModels_def
      addHiddenModel_def addHiddenAssociation_def getThroughModelOperations_def
      findThroughModel_def propagateFlag_def readFlag_def traversedStore_def)

subsection \<open>Running the completion pass again\<close>

lemma map_entry_id:
  "(\<And>r. map_of s k = Some r \<Longrightarrow> f r = r) \<Longrightarrow> AList.map_entry k f s = s"
  by (induction s) auto

lemma setFlag_id:
  "map_of s j = Some r \<Longrightarrow> isInsert r \<Longrightarrow> setInsert j s = s"
  "map_of s j = Some r \<Longrightarrow> isUpdate r \<Longrightarrow> setUpdate j s = s"
  "map_of s j = Some r \<Longrightarrow> isDelete r \<Longrightarrow> setDelete j s = s"
  by (auto simp: setInsert_def setUpdate_def setDelete_def intro!: map_entry_id)

lemma getOrCreate_id:
  "map_of s (name model) = Some r \<Longrightarrow> getOrCreateModelOperations model s = s"
  by (simp add: getOrCreateModelOperations_def)

lemma forEach_fixed:
  "(\<And>x. x \<in> set xs \<Longrightarrow> f x s = Inr s) \<Longrightarrow> forEach f xs s = Inr s"
  by (induction xs) auto

lemma forEach_relation:
  assumes "\<And>s. R s s"
    and "\<And>a b c. R a b \<Longrightarrow> R b c \<Longrightarrow> R a c"
    and "\<And>x s s'. x \<in> set xs \<Longrightarrow> f x s = Inr s' \<Longrightarrow> R s s'"
    and "forEach f xs s = Inr s'"
  shows "R s s'"
  using assms(3,4)
proof (induction xs arbitrary: s)
  case Nil
  then show ?case by (simp add: assms(1))
next
  case (Cons x xs)
  from Cons.prems(2) obtain s1 where s1: "f x s = Inr s1" "forEach f xs s1 = Inr s'"
    by (auto split: sum.splits)
  have "R s s1" by (rule Cons.prems(1)[OF _ s1(1)]) simp
  moreover have "R s1 s'"
    by (rule Cons.IH[OF _ s1(2)]) (rule Cons.prems(1), simp_all)
  ultimately show ?case by (rule assms(2))
qed

lemma addHiddenAssociation_skipped:
  assumes "associationType a \<noteq> BelongsToMany \<or> map_of s (name (target a)) = None"
  shows "addHiddenAssociation am a s = Inr s"
  using assms by (auto simp: addHiddenAssociation_def)

lemma addHiddenAssociation_unresolved:
  assumes "associationType a = BelongsToMany"
    and "map_of s (name (target a)) = Some t"
    and "findThroughModel am a = None"
  shows "addHiddenAssociation am a s =
     (if isInsert t \<or> isUpdate t \<or> isDelete t then Inl TypeError else Inr s)"
  using assms
  by (simp add: addHiddenAssociation_def getThroughModelOperations_def propagateFlag_def
      readFlag_def)

lemma settled_fixed:
  assumes "settled am a s"
  shows "addHiddenAssociation am a s = Inr s"
proof (cases "associationType a \<noteq> BelongsToMany \<or> map_of s (name (target a)) = None")
  case True
  then show ?thesis by (rule addHiddenAssociation_skipped)
next
  case False
  then obtain t where t: "associationType a = BelongsToMany" "map_of s (name (target a)) = Some t"
    by auto
  show ?thesis
  proof (cases "findThroughModel am a")
    case None
    with assms t show ?thesis
      by (simp add: addHiddenAssociation_unresolved[OF t None] settled_def)
  next
    case (Some tm)
    with assms t obtain r where r: "map_of s (name tm) = Some r"
      "isInsert t \<longrightarrow> isInsert r" "isUpdate t \<longrightarrow> isUpdate r" "isDelete t \<longrightarrow> isDelete r"
      by (auto simp: settled_def split: option.splits)
    have g: "getThroughModelOperations am a s = (Some (name tm), s)"
      by (simp add: getThroughModelOperations_def Some getOrCreate_id[OF r(1)])
    have p: "propagateFlag isInsert setInsert (name (target a)) (Some (name tm)) s = Inr s"
      "propagateFlag isUpdate setUpdate (name (target a)) (Some (name tm)) s = Inr s"
      "propagateFlag isDelete setDelete (name (target a)) (Some (name tm)) s = Inr s"
      using r setFlag_id[OF r(1)] by (simp_all add: propagateFlag_Some readFlag_def t(2))
    show ?thesis by (simp add: addHiddenAssociation_def t g p)
  qed
qed

lemma step_settles:
  assumes "addHiddenAssociation am a s = Inr s'"
  shows "settled am a s'"
proof (cases "associationType a \<noteq> BelongsToMany \<or> map_of s (name (target a)) = None")
  case True
  with assms addHiddenAssociation_skipped[OF True, of am] show ?thesis
    by (auto simp: settled_def)
next
  case False
  then obtain t where t: "associationType a = BelongsToMany" "map_of s (name (target a)) = Some t"
    by auto
  show ?thesis
  proof (cases "findThroughModel am a")
    case None
    with assms t show ?thesis
      by (auto simp: addHiddenAssociation_unresolved[OF t None] settled_def split: if_splits)
  next
    case (Some tm)
    from addHiddenAssociation_resolved[OF Some t(2)] assms
    have m: "map_of s' k =
          (if k = name tm
           then Some (inheritFlags t
                  (case map_of s k of None \<Rightarrow> freshRecord tm | Some r \<Rightarrow> r))
           else map_of s k)" for k
      by auto
    show ?thesis
      using t(2) by (auto simp: settled_def Some m inheritFlags_def)
  qed
qed

lemma step_elsewhere:
  assumes "addHiddenAssociation am a s = Inr s'"
    and "\<And>tm. findThroughModel am a = Some tm \<Longrightarrow> k \<noteq> name tm"
  shows "map_of s' k = map_of s k"
proof (cases "associationType a \<noteq> BelongsToMany \<or> map_of s (name (target a)) = None")
  case True
  with assms(1) addHiddenAssociation_skipped[OF True, of am] show ?thesis by simp
next
  case False
  then obtain t where t: "associationType a = BelongsToMany" "map_of s (name (target a)) = Some t"
    by auto
  show ?thesis
  proof (cases "findThroughModel am a")
    case None
    with assms(1) t show ?thesis
      by (auto simp: addHiddenAssociation_unresolved[OF t None] split: if_splits)
  next
    case (Some tm)
    from addHiddenAssociation_resolved[OF Some t(2)] assms(1) assms(2)[OF Some]
    show ?thesis by auto
  qed
qed

lemma step_keys:
  assumes "addHiddenAssociation am a s = Inr s'"
  shows "set (map fst s') \<subseteq> set (map fst s) \<union> {k. \<exists>tm. findThroughModel am a = Some tm \<and> k = name tm}"
proof (cases "associationType a \<noteq> BelongsToMany \<or> map_of s (name (target a)) = None")
  case True
  with assms addHiddenAssociation_skipped[OF True, of am] show ?thesis by auto
next
  case False
  then obtain t where t: "associationType a = BelongsToMany" "map_of s (name (target a)) = Some t"
    by auto
  show ?thesis
  proof (cases "findThroughModel am a")
    case None
    with assms t show ?thesis
      by (auto simp: addHiddenAssociation_unresolved[OF t None] split: if_splits)
  next
    case (Some tm)
    from addHiddenAssociation_resolved[OF Some t(2)] assms
    have "map fst s' = (if map_of s (name tm) = None then map fst s @ [name tm] else map fst s)"
      by auto
    then show ?thesis using Some by (auto split: if_splits)
  qed
qed

lemma associations_registered:
  assumes "map_of am k = Some model" and "a \<in> set (map snd (associations model))"
  shows "a \<in> set (allAssociations am)"
proof -
  from assms(1) have "(k, model) \<in> set am" by (rule map_of_SomeD)
  with assms(2) show ?thesis by (force simp: allAssociations_def)
qed

lemma set_map_filter: "set (List.map_filter f xs) = {y. \<exists>x \<in> set xs. f x = Some y}"
  by (induction xs) (auto split: option.splits)

lemma joinNames_member:
  assumes "a \<in> set (allAssociations am)" and "findThroughModel am a = Some tm"
  shows "name tm \<in> set (joinNames am)"
  using assms by (force simp: joinNames_def set_map_filter)

lemma joinNames_registered:
  assumes "keyedByName am" and "k \<in> set (joinNames am)"
  shows "\<exists>tm. map_of am k = Some tm \<and> (k, tm) \<in> set am"
proof -
  from assms(2) obtain a tm where a: "findThroughModel am a = Some tm" "name tm = k"
    by (auto simp: joinNames_def set_map_filter)
  from a(1) obtain k' where k': "map_of am k' = Some tm"
    by (auto simp: findThroughModel_def split: if_splits option.splits)
  then have "(k', tm) \<in> set am" by (rule map_of_SomeD)
  with assms(1) a(2) have "k' = k" by (auto simp: keyedByName_def)
  with k' \<open>(k', tm) \<in> set am\<close> show ?thesis by auto
qed

lemma joinsApart_target:
  assumes "joinsApart am" and "a \<in> set (allAssociations am)"
    and "associationType a = BelongsToMany"
  shows "name (target a) \<notin> set (joinNames am)"
  using assms by (fastforce simp: joinsApart_def allAssociations_def)

lemma settled_stable_step:
  assumes ja: "joinsApart am"
    and a: "a \<in> set (allAssociations am)"
    and b: "b \<in> set (allAssociations am)"
    and st: "settled am a s"
    and step: "addHiddenAssociation am b s = Inr s'"
  shows "settled am a s'"
proof (cases "associationType a = BelongsToMany")
  case False
  then show ?thesis by (simp add: settled_def)
next
  case True
  have "name (target a) \<noteq> name tm" if "findThroughModel am b = Some tm" for tm
    using joinsApart_target[OF ja a True] joinNames_member[OF b that] by auto
  then have same: "map_of s' (name (target a)) = map_of s (name (target a))"
    using step_elsewhere[OF step] by blast
  have p: "preserved s s'" using step by (rule preserved_addHiddenAssociation)
  show ?thesis
  proof (cases "map_of s (name (target a))")
    case None
    then show ?thesis by (simp add: settled_def same)
  next
    case (Some t)
    show ?thesis
    proof (cases "findThroughModel am a")
      case None
      with st Some True show ?thesis by (simp add: settled_def same)
    next
      case tm: (Some tm)
      with st Some True obtain r where r: "map_of s (name tm) = Some r"
        "isInsert t \<longrightarrow> isInsert r" "isUpdate t \<longrightarrow> isUpdate r" "isDelete t \<longrightarrow> isDelete r"
        by (auto simp: settled_def split: option.splits)
      from preserved_lookup[OF p r(1)] obtain r' where
        "map_of s' (name tm) = Some r'" "recordLe r r'"
        by blast
      with r show ?thesis
        by (simp add: settled_def same Some tm recordLe_def)
    qed
  qed
qed


lemma settled_stable_associations:
  assumes "joinsApart am"
    and "a \<in> set (allAssociations am)"
    and "set bs \<subseteq> set (allAssociations am)"
    and "forEach (addHiddenAssociation am) bs s = Inr s'"
  shows "settled am a s \<longrightarrow> settled am a s'"
proof (rule forEach_relation[where R = "\<lambda>s s'. settled am a s \<longrightarrow> settled am a s'"
      and f = "addHiddenAssociation am" and xs = bs, OF _ _ _ assms(4)])
  fix b s s'
  assume "b \<in> set bs" "addHiddenAssociation am b s = Inr s'"
  with assms(1-3) show "settled am a s \<longrightarrow> settled am a s'"
    using settled_stable_step by blast
qed simp_all

lemma settled_stable_model:
  assumes "joinsApart am"
    and "a \<in> set (allAssociations am)"
    and "addHiddenModel am k s = Inr s'"
  shows "settled am a s \<longrightarrow> settled am a s'"
proof -
  from assms(3) obtain m where m: "map_of am k = Some m"
    "forEach (addHiddenAssociation am) (map snd (associations m)) s = Inr s'"
    by (auto simp: addHiddenModel_def split: option.splits)
  have "set (map snd (associations m)) \<subseteq> set (allAssociations am)"
    using associations_registered[OF m(1)] by blast
  from settled_stable_associations[OF assms(1,2) this m(2)] show ?thesis .
qed

lemma settled_stable_models:
  assumes "joinsApart am"
    and "a \<in> set (allAssociations am)"
    and "forEach (addHiddenModel am) ks s = Inr s'"
  shows "settled am a s \<longrightarrow> settled am a s'"
proof (rule forEach_relation[where R = "\<lambda>s s'. settled am a s \<longrightarrow> settled am a s'"
      and f = "addHiddenModel am" and xs = ks, OF _ _ _ assms(3)])
  fix k s s'
  assume "k \<in> set ks" "addHiddenModel am k s = Inr s'"
  with assms(1,2) show "settled am a s \<longrightarrow> settled am a s'"
    using settled_stable_model by blast
qed simp_all

lemma associations_settle:
  assumes "joinsApart am"
    and "set as \<subseteq> set (allAssociations am)"
    and "forEach (addHiddenAssociation am) as s = Inr s'"
  shows "\<forall>a \<in> set as. settled am a s'"
  using assms(2,3)
proof (induction as arbitrary: s)
  case Nil
  show ?case by simp
next
  case (Cons a as)
  from Cons.prems(2) obtain s1 where
    s1: "addHiddenAssociation am a s = Inr s1" "forEach (addHiddenAssociation am) as s1 = Inr s'"
    by (auto split: sum.splits)
  from Cons.prems(1) have sub: "a \<in> set (allAssociations am)"
    "set as \<subseteq> set (allAssociations am)"
    by simp_all
  have "settled am a s1" using s1(1) by (rule step_settles)
  with settled_stable_associations[OF assms(1) sub s1(2)] have "settled am a s'" by simp
  moreover have "\<forall>b \<in> set as. settled am b s'" using Cons.IH[OF sub(2) s1(2)] .
  ultimately show ?case by simp
qed

lemma models_settle:
  assumes "joinsApart am"
    and "forEach (addHiddenModel am) ks s = Inr s'"
  shows "\<forall>k \<in> set ks. \<exists>m. map_of am k = Some m
      \<and> (\<forall>a \<in> set (map snd (associations m)). settled am a s')"
  using assms(2)
proof (induction ks arbitrary: s)
  case Nil
  show ?case by simp
next
  case (Cons k ks)
  from Cons.prems obtain s1 where
    s1: "addHiddenModel am k s = Inr s1" "forEach (addHiddenModel am) ks s1 = Inr s'"
    by (auto split: sum.splits)
  from s1(1) obtain m where m: "map_of am k = Some m"
    "forEach (addHiddenAssociation am) (map snd (associations m)) s = Inr s1"
    by (auto simp: addHiddenModel_def split: option.splits)
  have sub: "set (map snd (associations m)) \<subseteq> set (allAssociations am)"
    using associations_registered[OF m(1)] by blast
  have "settled am a s'" if "a \<in> set (map snd (associations m))" for a
  proof -
    from associations_settle[OF assms(1) sub m(2)] that have "settled am a s1" by blast
    moreover from sub that have "a \<in> set (allAssociations am)" by blast
    ultimately show ?thesis using settled_stable_models[OF assms(1) _ s1(2)] by blast
  qed
  with m(1) have "\<exists>m. map_of am k = Some m
      \<and> (\<forall>a \<in> set (map snd (associations m)). settled am a s')"
    by blast
  with Cons.IH[OF s1(2)] show ?case by simp
qed

lemma association_keys:
  assumes "a \<in> set (allAssociations am)"
    and "addHiddenAssociation am a s = Inr s'"
  shows "set (map fst s') \<subseteq> set (map fst s) \<union> set (joinNames am)"
  using step_keys[OF assms(2)] joinNames_member[OF assms(1)] by blast

lemma model_keys:
  assumes "addHiddenModel am k s = Inr s'"
  shows "set (map fst s') \<subseteq> set (map fst s) \<union> set (joinNames am)"
proof -
  from assms obtain m where m: "map_of am k = Some m"
    "forEach (addHiddenAssociation am) (map snd (associations m)) s = Inr s'"
    by (auto simp: addHiddenModel_def split: option.splits)
  show ?thesis
  proof (rule forEach_relation[where
        R = "\<lambda>s s'. set (map fst s') \<subseteq> set (map fst s) \<union> set (joinNames am)"
        and f = "addHiddenAssociation am" and xs = "map snd (associations m)", OF _ _ _ m(2)])
    fix a s s'
    assume "a \<in> set (map snd (associations m))" "addHiddenAssociation am a s = Inr s'"
    then show "set (map fst s') \<subseteq> set (map fst s) \<union> set (joinNames am)"
      using association_keys associations_registered[OF m(1)] by blast
  qed blast+
qed

lemma pass_keys:
  assumes "forEach (addHiddenModel am) ks s = Inr s'"
  shows "set (map fst s') \<subseteq> set (map fst s) \<union> set (joinNames am)"
proof (rule forEach_relation[where
      R = "\<lambda>s s'. set (map fst s') \<subseteq> set (map fst s) \<union> set (joinNames am)"
      and f = "addHiddenModel am" and xs = ks, OF _ _ _ assms])
  fix k s s'
  assume "addHiddenModel am k s = Inr s'"
  then show "set (map fst s') \<subseteq> set (map fst s) \<union> set (joinNames am)"
    by (rule model_keys)
qed blast+

text \<open>
  C7, as the claim states it: a second run of the completion pass over a store on which
  it has run leaves the store equal. It fails when a join entity is the target of another
  many-to-many association: the first run creates the record of \<^verbatim>\<open>GameTeam\<close> after it
  has looked at \<^verbatim>\<open>Player\<close>, and the second run, which finds that record, creates the
  record of \<^verbatim>\<open>PlayerGameTeam\<close>.
\<close>

theorem completion_idempotent_counterexample:
  "addHiddenManyToManyModels tournamentModels tournamentStore =
     Inr (tournamentStore @ [(''GameTeam'', freshRecord (plainModel ''GameTeam'' []))])
   \<and> addHiddenManyToManyModels tournamentModels
       (tournamentStore @ [(''GameTeam'', freshRecord (plainModel ''GameTeam'' []))]) =
     Inr (tournamentStore @
          [(''GameTeam'', freshRecord (plainModel ''GameTeam'' [])),
           (''PlayerGameTeam'', freshRecord (plainModel ''PlayerGameTeam'' []))])
   \<and> tournamentStore @ [(''GameTeam'', freshRecord (plainModel ''GameTeam'' []))] \<noteq>
     tournamentStore @
          [(''GameTeam'', freshRecord (plainModel ''GameTeam'' [])),
           (''PlayerGameTeam'', freshRecord (plainModel ''PlayerGameTeam'' []))]"
  by (simp add: tournamentModels_def tournamentStore_def plainModel_def belongsToMany_def
      freshRecord_def getSequelizeModelTableName_def getOrCreateModelOperations_def
      addHiddenManyToManyModels_def addHiddenModel_def addHiddenAssociation_def
      getThroughModelOperations_def findThroughModel_def propagateFlag_def readFlag_def)

text \<open>
  C7, amended: with a registry in which every model is registered under its own name and
  no join entity is the source or the target of a many-to-many association, a second run
  of the completion pass over the store that a first run has returned returns that store
  again: no flag changes and no record is created or removed.
\<close>

theorem completion_idempotent:
  assumes "keyedByName availableModels"
    and "joinsApart availableModels"
    and "addHiddenManyToManyModels availableModels foundModels = Inr completed"
  shows "addHiddenManyToManyModels availableModels completed = Inr completed"
proof -
  let ?am = availableModels
  have first: "forEach (addHiddenModel ?am) (map fst foundModels) foundModels = Inr completed"
    using assms(3) by (simp add: addHiddenManyToManyModels_def)
  have fixed: "addHiddenModel ?am k completed = Inr completed"
    if k: "k \<in> set (map fst completed)" for k
  proof (cases "k \<in> set (map fst foundModels)")
    case True
    with models_settle[OF assms(2) first] obtain m where m: "map_of ?am k = Some m"
      "\<forall>a \<in> set (map snd (associations m)). settled ?am a completed"
      by blast
    have "forEach (addHiddenAssociation ?am) (map snd (associations m)) completed = Inr completed"
      by (rule forEach_fixed) (use m(2) settled_fixed in blast)
    with m(1) show ?thesis by (simp add: addHiddenModel_def)
  next
    case False
    with k pass_keys[OF first] have j: "k \<in> set (joinNames ?am)" by blast
    from joinNames_registered[OF assms(1) j] obtain tm where
      tm: "map_of ?am k = Some tm" "(k, tm) \<in> set ?am"
      by blast
    have "addHiddenAssociation ?am a completed = Inr completed"
      if "a \<in> set (map snd (associations tm))" for a
    proof -
      from assms(2) tm(2) that j have "associationType a \<noteq> BelongsToMany"
        by (fastforce simp: joinsApart_def)
      then show ?thesis by (simp add: addHiddenAssociation_skipped)
    qed
    then have "forEach (addHiddenAssociation ?am) (map snd (associations tm)) completed =
        Inr completed"
      by (rule forEach_fixed)
    with tm(1) show ?thesis by (simp add: addHiddenModel_def)
  qed
  show ?thesis
    unfolding addHiddenManyToManyModels_def by (rule forEach_fixed) (rule fixed)
qed

theorem completion_idempotent_witness:
  "keyedByName exampleModels
   \<and> joinsApart exampleModels
   \<and> addHiddenManyToManyModels exampleModels traversedStore = Inr completedStore
   \<and> addHiddenManyToManyModels exampleModels completedStore = Inr completedStore"
proof -
  have h1: "keyedByName exampleModels"
    by (simp add: keyedByName_def exampleModels_def userModel_def roleModel_def
        userRoleModel_def)
  have j: "joinNames exampleModels = [''UserRole'']"
    by (simp add: joinNames_def allAssociations_def exampleModels_def userModel_def
        roleModel_def userRoleModel_def findThroughModel_def)
  have h2: "joinsApart exampleModels"
    unfolding joinsApart_def j
    by (simp add: exampleModels_def userModel_def roleModel_def userRoleModel_def)
  from completion_idempotent[OF h1 h2 example_completion] h1 h2 example_completion
  show ?thesis by simp
qed

end
